theory Spec2Isabelle
  imports Main "HOL-Library.List_Lexorder" "HOL-Library.Char_ord"
begin

section \<open>Machine integers and failures\<close>

text \<open>
  The catalog's identifiers are \<^verbatim>\<open>i32\<close> values. They are modelled as integers, and the
  one place where the source does arithmetic on them (the post-increment of the id
  counters) is wrapped to the signed 32-bit range. Signed overflow is undefined in C++;
  the model takes the two's-complement result.
\<close>

definition wrap32 :: "int \<Rightarrow> int" where
  "wrap32 x = (x + 2147483648) mod 4294967296 - 2147483648"

text \<open>
  Every way in which the source stops instead of returning: a failed \<^verbatim>\<open>assert\<close>
  (the model is the build with assertions enabled), \<^verbatim>\<open>std::map::at\<close> on an absent key,
  \<^verbatim>\<open>LOG(FATAL)\<close>, a failed write of the storage backend, and control that reaches the
  end of a value-returning function without a \<^verbatim>\<open>return\<close>.
\<close>

datatype error = AssertionFailed | OutOfRange | LogFatal | IOError | NoReturnValue

section \<open>Ordered maps\<close>

text \<open>
  A \<^verbatim>\<open>std::map\<close> is the list of its entries in increasing key order, which is the order
  in which a range-for loop visits them. \<open>map_insert\<close> is \<^verbatim>\<open>insert\<close> (an entry whose
  key is present is left alone), \<open>map_assign\<close> is \<^verbatim>\<open>m[k] = v\<close>, \<open>map_erase\<close> is
  \<^verbatim>\<open>erase(k)\<close>, \<open>map_find\<close> is \<^verbatim>\<open>find\<close> and \<open>map_count\<close> is \<^verbatim>\<open>count\<close>.
\<close>

fun map_find :: "'k \<Rightarrow> ('k \<times> 'v) list \<Rightarrow> 'v option" where
  "map_find k [] = None"
| "map_find k (e # es) = (if fst e = k then Some (snd e) else map_find k es)"

definition map_count :: "'k \<Rightarrow> ('k \<times> 'v) list \<Rightarrow> nat" where
  "map_count k es = (case map_find k es of None \<Rightarrow> 0 | Some _ \<Rightarrow> 1)"

fun map_insert :: "'k::linorder \<Rightarrow> 'v \<Rightarrow> ('k \<times> 'v) list \<Rightarrow> ('k \<times> 'v) list" where
  "map_insert k v [] = [(k, v)]"
| "map_insert k v (e # es) =
     (if fst e = k then e # es
      else if k < fst e then (k, v) # e # es
      else e # map_insert k v es)"

fun map_assign :: "'k::linorder \<Rightarrow> 'v \<Rightarrow> ('k \<times> 'v) list \<Rightarrow> ('k \<times> 'v) list" where
  "map_assign k v [] = [(k, v)]"
| "map_assign k v (e # es) =
     (if fst e = k then (k, v) # es
      else if k < fst e then (k, v) # e # es
      else e # map_assign k v es)"

fun map_erase :: "'k \<Rightarrow> ('k \<times> 'v) list \<Rightarrow> ('k \<times> 'v) list" where
  "map_erase k [] = []"
| "map_erase k (e # es) = (if fst e = k then es else e # map_erase k es)"

text \<open>The representation invariant: keys strictly increase along the list.\<close>

definition ordered :: "('k::linorder \<times> 'v) list \<Rightarrow> bool" where
  "ordered es = sorted_wrt (<) (map fst es)"

definition int32 :: "int \<Rightarrow> bool" where
  "int32 x = (- 2147483648 \<le> x \<and> x < 2147483648)"

section \<open>The catalog: DatabaseMetadata\<close>

text \<open>
  \<^verbatim>\<open>DatabaseDescriptor\<close> is the serialised form: two counters and the repeated
  \<^verbatim>\<open>Table\<close> and \<^verbatim>\<open>Job\<close> messages, each an id and a name.
\<close>

record DatabaseDescriptor =
  next_table_id :: int
  next_job_id :: int
  tables :: "(int \<times> string) list"
  jobs :: "(int \<times> string) list"

text \<open>
  \<^verbatim>\<open>DatabaseMetadata\<close> holds the descriptor it was built from (the member
  \<^verbatim>\<open>descriptor_\<close> of the base class \<^verbatim>\<open>Metadata\<close>), the counters and the two indices
  from id to name. The members are declared in the header \<^verbatim>\<open>db.h\<close>, which is not among
  the sources; the indices are taken to be \<^verbatim>\<open>std::map<i32, std::string>\<close>, the container
  whose operations the member functions call (\<^verbatim>\<open>insert\<close>, \<^verbatim>\<open>operator[]\<close>, \<^verbatim>\<open>erase\<close>,
  \<^verbatim>\<open>count\<close>, \<^verbatim>\<open>at\<close> and a loop over the entries). The suffix of a field name says
  which class the member belongs to.
\<close>

record DatabaseMetadata =
  descriptor_db :: DatabaseDescriptor
  next_table_id_db :: int
  next_job_id_db :: int
  table_names_db :: "(int \<times> string) list"
  job_names_db :: "(int \<times> string) list"

definition empty_DatabaseDescriptor :: DatabaseDescriptor where
  "empty_DatabaseDescriptor =
     \<lparr>next_table_id = 0, next_job_id = 0, tables = [], jobs = []\<rparr>"

text \<open>\<^verbatim>\<open>DatabaseMetadata::DatabaseMetadata()\<close>\<close>

definition DatabaseMetadata_new :: DatabaseMetadata where
  "DatabaseMetadata_new =
     \<lparr>descriptor_db = empty_DatabaseDescriptor, next_table_id_db = 0, next_job_id_db = 0,
      table_names_db = [], job_names_db = []\<rparr>"

text \<open>
  \<^verbatim>\<open>DatabaseMetadata::DatabaseMetadata(const DatabaseDescriptor&)\<close>: the two loops insert
  the entries of the descriptor in list order.
\<close>

fun insert_all :: "('k::linorder \<times> 'v) list \<Rightarrow> ('k \<times> 'v) list \<Rightarrow> ('k \<times> 'v) list" where
  "insert_all [] m = m"
| "insert_all (e # es) m = insert_all es (map_insert (fst e) (snd e) m)"

definition DatabaseMetadata_of :: "DatabaseDescriptor \<Rightarrow> DatabaseMetadata" where
  "DatabaseMetadata_of d =
     \<lparr>descriptor_db = d, next_table_id_db = next_table_id d, next_job_id_db = next_job_id d,
      table_names_db = insert_all (tables d) [], job_names_db = insert_all (jobs d) []\<rparr>"

text \<open>
  \<^verbatim>\<open>DatabaseMetadata::get_descriptor\<close> overwrites the stored descriptor from the live
  members and returns it; the model returns the descriptor and the updated object.
\<close>

definition DatabaseMetadata_get_descriptor ::
  "DatabaseMetadata \<Rightarrow> DatabaseDescriptor \<times> DatabaseMetadata" where
  "DatabaseMetadata_get_descriptor m =
     (let d = (descriptor_db m)\<lparr>next_table_id := next_table_id_db m,
                                next_job_id := next_job_id_db m,
                                tables := table_names_db m,
                                jobs := job_names_db m\<rparr>
      in (d, m\<lparr>descriptor_db := d\<rparr>))"

text \<open>The two overloads of \<^verbatim>\<open>has_table\<close> and of \<^verbatim>\<open>has_job\<close>, by name and by id.\<close>

fun has_name :: "string \<Rightarrow> (int \<times> string) list \<Rightarrow> bool" where
  "has_name n [] = False"
| "has_name n (kv # kvs) = (if snd kv = n then True else has_name n kvs)"

definition has_table_name :: "DatabaseMetadata \<Rightarrow> string \<Rightarrow> bool" where
  "has_table_name m n = has_name n (table_names_db m)"

definition has_table :: "DatabaseMetadata \<Rightarrow> int \<Rightarrow> bool" where
  "has_table m table_id = (map_count table_id (table_names_db m) > 0)"

definition has_job_name :: "DatabaseMetadata \<Rightarrow> string \<Rightarrow> bool" where
  "has_job_name m n = has_name n (job_names_db m)"

definition has_job :: "DatabaseMetadata \<Rightarrow> int \<Rightarrow> bool" where
  "has_job m job_id = (map_count job_id (job_names_db m) > 0)"

text \<open>
  \<^verbatim>\<open>get_table_id\<close> and \<^verbatim>\<open>get_job_id\<close>: the loop keeps the id of the first entry with
  the name, starting from the sentinel \<open>-1\<close>; the assertion then rejects the sentinel.
\<close>

fun find_id :: "string \<Rightarrow> (int \<times> string) list \<Rightarrow> int \<Rightarrow> int" where
  "find_id n [] i = i"
| "find_id n (kv # kvs) i = (if snd kv = n then fst kv else find_id n kvs i)"

definition get_table_id :: "DatabaseMetadata \<Rightarrow> string \<Rightarrow> error + int" where
  "get_table_id m n =
     (let i = find_id n (table_names_db m) (- 1)
      in if i \<noteq> - 1 then Inr i else Inl AssertionFailed)"

definition get_job_id :: "DatabaseMetadata \<Rightarrow> string \<Rightarrow> error + int" where
  "get_job_id m n =
     (let i = find_id n (job_names_db m) (- 1)
      in if i \<noteq> - 1 then Inr i else Inl AssertionFailed)"

text \<open>\<^verbatim>\<open>get_table_name\<close> and \<^verbatim>\<open>get_job_name\<close> are \<^verbatim>\<open>at\<close>, which throws on an absent id.\<close>

definition get_table_name :: "DatabaseMetadata \<Rightarrow> int \<Rightarrow> error + string" where
  "get_table_name m table_id =
     (case map_find table_id (table_names_db m) of None \<Rightarrow> Inl OutOfRange | Some n \<Rightarrow> Inr n)"

definition get_job_name :: "DatabaseMetadata \<Rightarrow> int \<Rightarrow> error + string" where
  "get_job_name m job_id =
     (case map_find job_id (job_names_db m) of None \<Rightarrow> Inl OutOfRange | Some n \<Rightarrow> Inr n)"

text \<open>
  \<^verbatim>\<open>add_table\<close> and \<^verbatim>\<open>add_job\<close> return the counter's value, advance the counter and
  store the name under the returned id.
\<close>

definition add_table :: "string \<Rightarrow> DatabaseMetadata \<Rightarrow> int \<times> DatabaseMetadata" where
  "add_table n m =
     (let table_id = next_table_id_db m
      in (table_id, m\<lparr>next_table_id_db := wrap32 (next_table_id_db m + 1),
                      table_names_db := map_assign table_id n (table_names_db m)\<rparr>))"

definition add_job :: "string \<Rightarrow> DatabaseMetadata \<Rightarrow> int \<times> DatabaseMetadata" where
  "add_job n m =
     (let job_id = next_job_id_db m
      in (job_id, m\<lparr>next_job_id_db := wrap32 (next_job_id_db m + 1),
                    job_names_db := map_assign job_id n (job_names_db m)\<rparr>))"

text \<open>\<^verbatim>\<open>remove_table\<close> and \<^verbatim>\<open>remove_job\<close> assert that the id is present, then erase it.\<close>

definition remove_table :: "int \<Rightarrow> DatabaseMetadata \<Rightarrow> error + DatabaseMetadata" where
  "remove_table table_id m =
     (if map_count table_id (table_names_db m) > 0
      then Inr (m\<lparr>table_names_db := map_erase table_id (table_names_db m)\<rparr>)
      else Inl AssertionFailed)"

definition remove_job :: "int \<Rightarrow> DatabaseMetadata \<Rightarrow> error + DatabaseMetadata" where
  "remove_job job_id m =
     (if map_count job_id (job_names_db m) > 0
      then Inr (m\<lparr>job_names_db := map_erase job_id (job_names_db m)\<rparr>)
      else Inl AssertionFailed)"


text \<open>
  Serialising a catalog and constructing a new one from the result: \<^verbatim>\<open>get_descriptor\<close>
  followed by the constructor from a descriptor.
\<close>

definition reload :: "DatabaseMetadata \<Rightarrow> DatabaseMetadata" where
  "reload m = DatabaseMetadata_of (fst (DatabaseMetadata_get_descriptor m))"

definition catalog_ordered :: "DatabaseMetadata \<Rightarrow> bool" where
  "catalog_ordered m = (ordered (table_names_db m) \<and> ordered (job_names_db m))"

subsection \<open>Sequences of catalog calls\<close>

text \<open>
  A client's calls on one catalog, run in order. Each call's reply is recorded; a failed
  assertion ends the run.
\<close>

datatype catalog_op = AddTable string | RemoveTable int | AddJob string | RemoveJob int

datatype reply = TableId int | JobId int | Removed

fun apply_op :: "catalog_op \<Rightarrow> DatabaseMetadata \<Rightarrow> error + (reply \<times> DatabaseMetadata)" where
  "apply_op (AddTable n) m = (case add_table n m of (i, m') \<Rightarrow> Inr (TableId i, m'))"
| "apply_op (AddJob n) m = (case add_job n m of (i, m') \<Rightarrow> Inr (JobId i, m'))"
| "apply_op (RemoveTable i) m =
     (case remove_table i m of Inl e \<Rightarrow> Inl e | Inr m' \<Rightarrow> Inr (Removed, m'))"
| "apply_op (RemoveJob i) m =
     (case remove_job i m of Inl e \<Rightarrow> Inl e | Inr m' \<Rightarrow> Inr (Removed, m'))"

fun run_ops ::
  "catalog_op list \<Rightarrow> DatabaseMetadata \<Rightarrow> error + (reply list \<times> DatabaseMetadata)" where
  "run_ops [] m = Inr ([], m)"
| "run_ops (x # xs) m =
     (case apply_op x m of
        Inl e \<Rightarrow> Inl e
      | Inr (r, m') \<Rightarrow>
          (case run_ops xs m' of Inl e \<Rightarrow> Inl e | Inr (rs, m'') \<Rightarrow> Inr (r # rs, m'')))"

fun issued_table_ids :: "reply list \<Rightarrow> int list" where
  "issued_table_ids [] = []"
| "issued_table_ids (TableId i # rs) = i # issued_table_ids rs"
| "issued_table_ids (r # rs) = issued_table_ids rs"

fun issued_job_ids :: "reply list \<Rightarrow> int list" where
  "issued_job_ids [] = []"
| "issued_job_ids (JobId i # rs) = i # issued_job_ids rs"
| "issued_job_ids (r # rs) = issued_job_ids rs"

fun num_add_table :: "catalog_op list \<Rightarrow> nat" where
  "num_add_table [] = 0"
| "num_add_table (AddTable n # xs) = Suc (num_add_table xs)"
| "num_add_table (x # xs) = num_add_table xs"

fun num_add_job :: "catalog_op list \<Rightarrow> nat" where
  "num_add_job [] = 0"
| "num_add_job (AddJob n # xs) = Suc (num_add_job xs)"
| "num_add_job (x # xs) = num_add_job xs"

text \<open>Successive calls of \<^verbatim>\<open>add_table\<close>, one per name, and the ids they return.\<close>

fun add_tables :: "string list \<Rightarrow> DatabaseMetadata \<Rightarrow> int list \<times> DatabaseMetadata" where
  "add_tables [] m = ([], m)"
| "add_tables (n # ns) m =
     (case add_table n m of (i, m') \<Rightarrow>
        (case add_tables ns m' of (js, m'') \<Rightarrow> (i # js, m'')))"

fun add_jobs :: "string list \<Rightarrow> DatabaseMetadata \<Rightarrow> int list \<times> DatabaseMetadata" where
  "add_jobs [] m = ([], m)"
| "add_jobs (n # ns) m =
     (case add_job n m of (i, m') \<Rightarrow>
        (case add_jobs ns m' of (js, m'') \<Rightarrow> (i # js, m'')))"

text \<open>
  Rounds of \<^verbatim>\<open>add_table\<close> followed by \<^verbatim>\<open>remove_table\<close> of the id just returned.
\<close>

fun add_remove_rounds :: "nat \<Rightarrow> string \<Rightarrow> DatabaseMetadata \<Rightarrow> error + DatabaseMetadata" where
  "add_remove_rounds 0 n m = Inr m"
| "add_remove_rounds (Suc k) n m =
     (case add_table n m of (i, m') \<Rightarrow>
        (case remove_table i m' of Inl e \<Rightarrow> Inl e | Inr m'' \<Rightarrow> add_remove_rounds k n m''))"

section \<open>Columns and tables: TableMetadata\<close>

text \<open>
  Modelled from the spec: the enumeration \<^verbatim>\<open>ColumnType\<close> is declared in the schema of the
  descriptors, which is not among the sources; the spec names its values \<^verbatim>\<open>INT\<close> and
  \<^verbatim>\<open>VIDEO\<close> (\<open>INT\<close> alone is reserved syntax, hence the prefix).
\<close>

datatype ColumnType = ColumnType_INT | ColumnType_VIDEO

record Column =
  col_id :: int
  col_name :: string
  col_type :: ColumnType

record TableDescriptor =
  table_id :: int
  table_name :: string
  num_rows :: int
  rows_per_item :: int
  table_columns :: "Column list"

record TableMetadata =
  descriptor_table :: TableDescriptor
  columns_table :: "Column list"

text \<open>\<^verbatim>\<open>TableMetadata::TableMetadata(const TableDescriptor&)\<close> copies the columns.\<close>

definition TableMetadata_of :: "TableDescriptor \<Rightarrow> TableMetadata" where
  "TableMetadata_of d = \<lparr>descriptor_table = d, columns_table = table_columns d\<rparr>"

text \<open>
  The three accessors loop over the descriptor's columns, return at the first match and
  reach \<^verbatim>\<open>LOG(FATAL)\<close> when the loop ends.
\<close>

fun first_with_id :: "int \<Rightarrow> Column list \<Rightarrow> Column option" where
  "first_with_id i [] = None"
| "first_with_id i (c # cs) = (if col_id c = i then Some c else first_with_id i cs)"

fun first_with_name :: "string \<Rightarrow> Column list \<Rightarrow> Column option" where
  "first_with_name n [] = None"
| "first_with_name n (c # cs) = (if col_name c = n then Some c else first_with_name n cs)"

definition TableMetadata_column_name :: "TableMetadata \<Rightarrow> int \<Rightarrow> error + string" where
  "TableMetadata_column_name t i =
     (case first_with_id i (table_columns (descriptor_table t)) of
        Some c \<Rightarrow> Inr (col_name c) | None \<Rightarrow> Inl LogFatal)"

definition TableMetadata_column_id :: "TableMetadata \<Rightarrow> string \<Rightarrow> error + int" where
  "TableMetadata_column_id t n =
     (case first_with_name n (table_columns (descriptor_table t)) of
        Some c \<Rightarrow> Inr (col_id c) | None \<Rightarrow> Inl LogFatal)"

definition TableMetadata_column_type :: "TableMetadata \<Rightarrow> int \<Rightarrow> error + ColumnType" where
  "TableMetadata_column_type t i =
     (case first_with_id i (table_columns (descriptor_table t)) of
        Some c \<Rightarrow> Inr (col_type c) | None \<Rightarrow> Inl LogFatal)"

section \<open>Jobs: JobMetadata\<close>

text \<open>
  Of a \<^verbatim>\<open>TableSample\<close> the code reads only the number of rows, of a \<^verbatim>\<open>Task\<close> the output
  table and the samples.
\<close>

record TableSample =
  rows :: "int list"

record Task =
  output_table_id :: int
  samples :: "TableSample list"

record JobDescriptor =
  job_id :: int
  job_name :: string
  io_item_size :: int
  work_item_size :: int
  num_nodes :: int
  job_columns :: "Column list"
  tasks :: "Task list"

text \<open>
  The members of \<^verbatim>\<open>JobMetadata\<close>: the column list, the index from column name to id,
  the list of table ids and the cache of row counts (an ordered map, filled by
  \<^verbatim>\<open>insert\<close> and read by \<^verbatim>\<open>find\<close>).
\<close>

record JobMetadata =
  descriptor_job :: JobDescriptor
  columns_job :: "Column list"
  column_ids_job :: "(string \<times> int) list"
  table_ids_job :: "int list"
  rows_in_table_job :: "(int \<times> int) list"

text \<open>
  \<^verbatim>\<open>JobMetadata::JobMetadata(const JobDescriptor&)\<close>: the first loop appends each column
  and inserts its name and id into the index, the second appends each task's output
  table id.
\<close>

fun index_columns :: "Column list \<Rightarrow> (string \<times> int) list \<Rightarrow> (string \<times> int) list" where
  "index_columns [] ix = ix"
| "index_columns (c # cs) ix = index_columns cs (map_insert (col_name c) (col_id c) ix)"

fun push_table_ids :: "Task list \<Rightarrow> int list \<Rightarrow> int list" where
  "push_table_ids [] ids = ids"
| "push_table_ids (t # ts) ids = push_table_ids ts (ids @ [output_table_id t])"

definition JobMetadata_of :: "JobDescriptor \<Rightarrow> JobMetadata" where
  "JobMetadata_of job =
     \<lparr>descriptor_job = job,
      columns_job = job_columns job,
      column_ids_job = index_columns (job_columns job) [],
      table_ids_job = push_table_ids (tasks job) [],
      rows_in_table_job = []\<rparr>"

text \<open>
  \<^verbatim>\<open>JobMetadata::column_id\<close> evaluates \<^verbatim>\<open>column_ids_.at(column_name)\<close>, which throws on
  an absent name, and has no \<^verbatim>\<open>return\<close> statement: the value found is dropped and
  control reaches the end of the function.
\<close>

definition JobMetadata_column_id :: "JobMetadata \<Rightarrow> string \<Rightarrow> error + int" where
  "JobMetadata_column_id j column_name =
     (case map_find column_name (column_ids_job j) of
        None \<Rightarrow> Inl OutOfRange
      | Some i \<Rightarrow> Inl NoReturnValue)"

definition table_ids :: "JobMetadata \<Rightarrow> int list" where
  "table_ids j = table_ids_job j"

fun contains_id :: "int \<Rightarrow> int list \<Rightarrow> bool" where
  "contains_id i [] = False"
| "contains_id i (x # xs) = (if x = i then True else contains_id i xs)"

definition JobMetadata_has_table :: "JobMetadata \<Rightarrow> int \<Rightarrow> bool" where
  "JobMetadata_has_table j i = contains_id i (table_ids_job j)"

text \<open>
  \<^verbatim>\<open>JobMetadata::rows_in_table\<close>. On a miss the loop runs over all tasks: each
  iteration asserts that the task has a sample, sets \<open>rows\<close> to the size of the first
  sample and inserts \<open>(table_id, rows)\<close> into the cache. The function returns the
  value and, the cache being a mutable member, the updated object.
\<close>

fun scan_tasks ::
  "int \<Rightarrow> Task list \<Rightarrow> int \<Rightarrow> (int \<times> int) list \<Rightarrow> (error + int) \<times> (int \<times> int) list" where
  "scan_tasks t [] r cache = (Inr r, cache)"
| "scan_tasks t (task # ts) r cache =
     (case samples task of
        [] \<Rightarrow> (Inl AssertionFailed, cache)
      | sample # _ \<Rightarrow>
          (let r' = int (length (rows sample))
           in scan_tasks t ts r' (map_insert t r' cache)))"

definition rows_in_table :: "JobMetadata \<Rightarrow> int \<Rightarrow> (error + int) \<times> JobMetadata" where
  "rows_in_table j t =
     (case map_find t (rows_in_table_job j) of
        None \<Rightarrow>
          (case scan_tasks t (tasks (descriptor_job j)) (- 1) (rows_in_table_job j) of
             (Inl e, cache) \<Rightarrow> (Inl e, j\<lparr>rows_in_table_job := cache\<rparr>)
           | (Inr r, cache) \<Rightarrow>
               (if r \<noteq> - 1 then Inr r else Inl AssertionFailed, j\<lparr>rows_in_table_job := cache\<rparr>))
      | Some r \<Rightarrow> (if r \<noteq> - 1 then Inr r else Inl AssertionFailed, j))"

section \<open>Item descriptors: VideoMetadata\<close>

record VideoDescriptor =
  video_table_id :: int
  video_column_id :: int
  video_item_id :: int
  frames :: int
  width :: int
  height :: int
  keyframe_positions :: "int list"
  keyframe_byte_offsets :: "int list"

record VideoMetadata =
  descriptor_video :: VideoDescriptor

text \<open>
  \<^verbatim>\<open>VideoMetadata::VideoMetadata(const VideoDescriptor&)\<close> stores the descriptor and has
  an empty body; the two accessors copy the descriptor's sequences.
\<close>

definition VideoMetadata_of :: "VideoDescriptor \<Rightarrow> VideoMetadata" where
  "VideoMetadata_of d = \<lparr>descriptor_video = d\<rparr>"

definition VideoMetadata_keyframe_positions :: "VideoMetadata \<Rightarrow> int list" where
  "VideoMetadata_keyframe_positions v = keyframe_positions (descriptor_video v)"

definition VideoMetadata_keyframe_byte_offsets :: "VideoMetadata \<Rightarrow> int list" where
  "VideoMetadata_keyframe_byte_offsets v = keyframe_byte_offsets (descriptor_video v)"

section \<open>Publishing a table: write_new_table\<close>

text \<open>
  Modelled from the spec: the path functions \<^verbatim>\<open>database_metadata_path\<close> and
  \<^verbatim>\<open>table_descriptor_path\<close> are not among the sources. The spec gives the catalog one
  fixed path and each table a path keyed by its id alone, distinct keys giving distinct
  paths; a path is therefore represented by its kind and key.
\<close>

datatype path = DatabasePath | TablePath int

definition database_metadata_path :: path where
  "database_metadata_path = DatabasePath"

definition table_descriptor_path :: "int \<Rightarrow> path" where
  "table_descriptor_path i = TablePath i"

text \<open>
  Modelled from the spec: the storage backend is external; its \<^verbatim>\<open>write(path, bytes)\<close>
  answers \<^verbatim>\<open>Ok\<close> or \<^verbatim>\<open>IOError\<close>. The backend is represented by its behaviour
  (\<open>accepts\<close>: which writes it completes) and by the log of the writes requested of it,
  oldest first, each with the answer it got.
\<close>

datatype payload = TablePayload TableDescriptor | DatabasePayload DatabaseDescriptor

datatype StoreResult = Ok | Failed

record StorageBackend =
  accepts :: "path \<Rightarrow> payload \<Rightarrow> bool"
  requests :: "(path \<times> payload \<times> StoreResult) list"

definition backend_write :: "path \<Rightarrow> payload \<Rightarrow> StorageBackend \<Rightarrow> StoreResult \<times> StorageBackend" where
  "backend_write p x s =
     (let r = (if accepts s p x then Ok else Failed)
      in (r, s\<lparr>requests := requests s @ [(p, x, r)]\<rparr>))"

text \<open>
  Modelled from the spec: \<^verbatim>\<open>write_table_metadata\<close> and \<^verbatim>\<open>write_database_metadata\<close> are
  not among the sources. The spec has them persist the object's descriptor through the
  backend at the object's path (for the catalog, the descriptor that
  \<^verbatim>\<open>get_descriptor\<close> rebuilds), a failed write being fatal for the operation.
\<close>

definition write_table_metadata ::
  "StorageBackend \<Rightarrow> TableMetadata \<Rightarrow> StoreResult \<times> StorageBackend" where
  "write_table_metadata s t =
     backend_write (table_descriptor_path (table_id (descriptor_table t)))
       (TablePayload (descriptor_table t)) s"

definition write_database_metadata ::
  "StorageBackend \<Rightarrow> DatabaseMetadata \<Rightarrow> (StoreResult \<times> StorageBackend) \<times> DatabaseMetadata" where
  "write_database_metadata s m =
     (case DatabaseMetadata_get_descriptor m of
        (d, m') \<Rightarrow> (backend_write database_metadata_path (DatabasePayload d) s, m'))"

text \<open>
  \<^verbatim>\<open>write_new_table\<close>: allocate the id from the catalog under the table's name, set it
  in the table's descriptor, write the table, write the catalog. Both objects are passed
  by reference, so the model returns them as they are when the function ends or stops.
\<close>

definition write_new_table ::
  "StorageBackend \<Rightarrow> DatabaseMetadata \<Rightarrow> TableMetadata \<Rightarrow>
     (error + unit) \<times> StorageBackend \<times> DatabaseMetadata \<times> TableMetadata" where
  "write_new_table storage meta t =
     (case add_table (table_name (descriptor_table t)) meta of
        (new_id, meta1) \<Rightarrow>
          (let t1 = t\<lparr>descriptor_table := (descriptor_table t)\<lparr>table_id := new_id\<rparr>\<rparr>
           in case write_table_metadata storage t1 of
                (Failed, s1) \<Rightarrow> (Inl IOError, s1, meta1, t1)
              | (Ok, s1) \<Rightarrow>
                  (case write_database_metadata s1 meta1 of
                     ((Failed, s2), meta2) \<Rightarrow> (Inl IOError, s2, meta2, t1)
                   | ((Ok, s2), meta2) \<Rightarrow> (Inr (), s2, meta2, t1))))"

section \<open>Properties of the ordered maps and of the id counters\<close>

lemma wrap32_id: "int32 x \<Longrightarrow> wrap32 x = x"
  by (simp add: wrap32_def int32_def)

lemma wrap32_add: "wrap32 (wrap32 x + y) = wrap32 (x + y)"
proof -
  have "(wrap32 x + y + 2147483648) mod 4294967296 = (x + y + 2147483648) mod 4294967296"
    unfolding wrap32_def by (simp add: mod_simps algebra_simps)
  then show ?thesis by (simp add: wrap32_def)
qed

lemma add_table_fst: "fst (add_table n m) = next_table_id_db m"
  by (simp add: add_table_def Let_def)

lemma add_table_next: "next_table_id_db (snd (add_table n m)) = wrap32 (next_table_id_db m + 1)"
  by (simp add: add_table_def Let_def)

lemma add_tables_ids:
  "int32 (next_table_id_db m) \<Longrightarrow>
   fst (add_tables ns m) = map (\<lambda>k. wrap32 (next_table_id_db m + int k)) [0..<length ns]"
proof (induction ns arbitrary: m)
  case Nil
  show ?case by simp
next
  case (Cons n ns)
  obtain i m' where am: "add_table n m = (i, m')" by (cases "add_table n m")
  have i: "i = next_table_id_db m" using am add_table_fst[of n m] by simp
  have nx: "next_table_id_db m' = wrap32 (next_table_id_db m + 1)"
    using am add_table_next[of n m] by simp
  have r: "int32 (next_table_id_db m')"
    by (simp add: nx wrap32_def int32_def)
  have tl: "fst (add_tables ns m') = map (\<lambda>k. wrap32 (next_table_id_db m + int (Suc k))) [0..<length ns]"
  proof -
    have "wrap32 (wrap32 (next_table_id_db m + 1) + int k) = wrap32 (next_table_id_db m + int (Suc k))" for k
    proof -
      have "next_table_id_db m + 1 + int k = next_table_id_db m + int (Suc k)" by simp
      then show ?thesis by (simp only: wrap32_add)
    qed
    then show ?thesis using Cons.IH[OF r] by (simp only: nx)
  qed
  obtain js m'' where rest: "add_tables ns m' = (js, m'')" by (cases "add_tables ns m'")
  show ?case
    using am i tl rest Cons.prems
    by (simp add: map_upt_Suc wrap32_id del: upt_Suc)
qed

lemma add_job_fst: "fst (add_job n m) = next_job_id_db m"
  by (simp add: add_job_def Let_def)

lemma add_job_next: "next_job_id_db (snd (add_job n m)) = wrap32 (next_job_id_db m + 1)"
  by (simp add: add_job_def Let_def)

lemma add_jobs_ids:
  "int32 (next_job_id_db m) \<Longrightarrow>
   fst (add_jobs ns m) = map (\<lambda>k. wrap32 (next_job_id_db m + int k)) [0..<length ns]"
proof (induction ns arbitrary: m)
  case Nil
  show ?case by simp
next
  case (Cons n ns)
  obtain i m' where am: "add_job n m = (i, m')" by (cases "add_job n m")
  have i: "i = next_job_id_db m" using am add_job_fst[of n m] by simp
  have nx: "next_job_id_db m' = wrap32 (next_job_id_db m + 1)"
    using am add_job_next[of n m] by simp
  have r: "int32 (next_job_id_db m')"
    by (simp add: nx wrap32_def int32_def)
  have tl: "fst (add_jobs ns m') = map (\<lambda>k. wrap32 (next_job_id_db m + int (Suc k))) [0..<length ns]"
  proof -
    have "wrap32 (wrap32 (next_job_id_db m + 1) + int k) = wrap32 (next_job_id_db m + int (Suc k))" for k
    proof -
      have "next_job_id_db m + 1 + int k = next_job_id_db m + int (Suc k)" by simp
      then show ?thesis by (simp only: wrap32_add)
    qed
    then show ?thesis using Cons.IH[OF r] by (simp only: nx)
  qed
  obtain js m'' where rest: "add_jobs ns m' = (js, m'')" by (cases "add_jobs ns m'")
  show ?case
    using am i tl rest Cons.prems
    by (simp add: map_upt_Suc wrap32_id del: upt_Suc)
qed

lemma map_count_pos: "(map_count k es > 0) = (k \<in> fst ` set es)"
  by (induction es) (auto simp: map_count_def)

lemma keys_map_assign: "fst ` set (map_assign k v es) = insert k (fst ` set es)"
  by (induction es) auto

lemma keys_map_erase: "fst ` set (map_erase k es) \<subseteq> fst ` set es"
  by (induction es) auto

lemma run_ops_append:
  "run_ops (xs @ ys) m =
     (case run_ops xs m of
        Inl e \<Rightarrow> Inl e
      | Inr (rs, m') \<Rightarrow>
          (case run_ops ys m' of Inl e \<Rightarrow> Inl e | Inr (rs', m'') \<Rightarrow> Inr (rs @ rs', m'')))"
  by (induction xs arbitrary: m) (auto split: sum.splits prod.splits)

lemma run_ops_length: "run_ops ops m = Inr (rs, m') \<Longrightarrow> length rs = length ops"
  by (induction ops arbitrary: m rs) (auto split: sum.splits prod.splits)

lemma apply_op_table:
  assumes "apply_op x m = Inr (r, m')"
  shows "(case x of AddTable n \<Rightarrow> r = TableId (next_table_id_db m) \<and>
                      next_table_id_db m' = wrap32 (next_table_id_db m + 1) \<and>
                      fst ` set (table_names_db m') =
                        insert (next_table_id_db m) (fst ` set (table_names_db m))
          | _ \<Rightarrow> (\<forall>i. r \<noteq> TableId i) \<and> next_table_id_db m' = next_table_id_db m \<and>
                 fst ` set (table_names_db m') \<subseteq> fst ` set (table_names_db m))"
  using assms
  by (cases x)
     (clarsimp simp: add_table_def add_job_def remove_table_def remove_job_def Let_def
        keys_map_assign keys_map_erase split: if_splits)+

lemma run_ops_table_ids:
  assumes "run_ops ops m = Inr (rs, m')"
    and "0 \<le> next_table_id_db m"
    and "next_table_id_db m + int (num_add_table ops) < 2147483648"
  shows "issued_table_ids rs = map (\<lambda>k. next_table_id_db m + int k) [0..<num_add_table ops]
         \<and> next_table_id_db m' = next_table_id_db m + int (num_add_table ops)"
  using assms
proof (induction ops arbitrary: m rs)
  case Nil
  then show ?case by simp
next
  case (Cons x xs)
  obtain r m1 rs1 where st: "apply_op x m = Inr (r, m1)"
    and rest: "run_ops xs m1 = Inr (rs1, m')" and rs: "rs = r # rs1"
    using Cons.prems(1) by (auto split: sum.splits prod.splits)
  show ?case
  proof (cases "\<exists>n. x = AddTable n")
    case True
    then obtain n where x: "x = AddTable n" by blast
    have r: "r = TableId (next_table_id_db m)"
      and c1: "next_table_id_db m1 = next_table_id_db m + 1"
      using apply_op_table[OF st] x Cons.prems(2,3) by (auto simp: wrap32_def)
    have "issued_table_ids rs1 = map (\<lambda>k. next_table_id_db m1 + int k) [0..<num_add_table xs]
         \<and> next_table_id_db m' = next_table_id_db m1 + int (num_add_table xs)"
      using Cons.IH[OF rest] c1 Cons.prems(2,3) x by simp
    then show ?thesis
      using r rs c1 x by (simp add: map_upt_Suc del: upt_Suc)
  next
    case False
    then have nr: "\<forall>i. r \<noteq> TableId i" and c1: "next_table_id_db m1 = next_table_id_db m"
      and cnt: "num_add_table (x # xs) = num_add_table xs"
      using apply_op_table[OF st] by (cases x; simp)+
    have "issued_table_ids rs1 = map (\<lambda>k. next_table_id_db m1 + int k) [0..<num_add_table xs]
         \<and> next_table_id_db m' = next_table_id_db m1 + int (num_add_table xs)"
      using Cons.IH[OF rest] c1 cnt Cons.prems(2,3) by simp
    then show ?thesis
      using nr rs c1 cnt by (cases r) auto
  qed
qed

lemma run_ops_table_keys:
  assumes "run_ops ops m = Inr (rs, m')"
    and "0 \<le> next_table_id_db m"
    and "next_table_id_db m + int (num_add_table ops) < 2147483648"
    and "\<forall>k\<in>fst ` set (table_names_db m). k < next_table_id_db m"
  shows "\<forall>k\<in>fst ` set (table_names_db m'). k < next_table_id_db m'"
  using assms
proof (induction ops arbitrary: m rs)
  case Nil
  then show ?case by simp
next
  case (Cons x xs)
  obtain r m1 rs1 where st: "apply_op x m = Inr (r, m1)"
    and rest: "run_ops xs m1 = Inr (rs1, m')"
    using Cons.prems(1) by (auto split: sum.splits prod.splits)
  have step: "0 \<le> next_table_id_db m1
      \<and> next_table_id_db m1 + int (num_add_table xs) < 2147483648
      \<and> (\<forall>k\<in>fst ` set (table_names_db m1). k < next_table_id_db m1)"
  proof (cases "\<exists>n. x = AddTable n")
    case True
    then obtain n where x: "x = AddTable n" by blast
    have "next_table_id_db m1 = next_table_id_db m + 1"
      and "fst ` set (table_names_db m1) = insert (next_table_id_db m) (fst ` set (table_names_db m))"
      using apply_op_table[OF st] x Cons.prems(2,3) by (auto simp: wrap32_def)
    then show ?thesis using Cons.prems(2,3,4) x by auto
  next
    case False
    then have c1: "next_table_id_db m1 = next_table_id_db m"
      and sub: "fst ` set (table_names_db m1) \<subseteq> fst ` set (table_names_db m)"
      and cnt: "num_add_table (x # xs) = num_add_table xs"
      using apply_op_table[OF st] by (cases x; simp)+
    have b: "\<forall>k\<in>fst ` set (table_names_db m1). k < next_table_id_db m1"
    proof
      fix k assume "k \<in> fst ` set (table_names_db m1)"
      then have "k \<in> fst ` set (table_names_db m)" using sub by (rule subsetD[rotated])
      then have "k < next_table_id_db m" using Cons.prems(4) by (rule bspec[rotated])
      then show "k < next_table_id_db m1" by (simp only: c1)
    qed
    have "0 \<le> next_table_id_db m1" using Cons.prems(2) by (simp only: c1)
    moreover have "next_table_id_db m1 + int (num_add_table xs) < 2147483648"
      using Cons.prems(3) by (simp only: c1 cnt)
    ultimately show ?thesis using b by (intro conjI)
  qed
  show ?case
    using Cons.IH[OF rest] step by blast
qed

lemma apply_op_job:
  assumes "apply_op x m = Inr (r, m')"
  shows "(case x of AddJob n \<Rightarrow> r = JobId (next_job_id_db m) \<and>
                      next_job_id_db m' = wrap32 (next_job_id_db m + 1) \<and>
                      fst ` set (job_names_db m') =
                        insert (next_job_id_db m) (fst ` set (job_names_db m))
          | _ \<Rightarrow> (\<forall>i. r \<noteq> JobId i) \<and> next_job_id_db m' = next_job_id_db m \<and>
                 fst ` set (job_names_db m') \<subseteq> fst ` set (job_names_db m))"
  using assms
  by (cases x)
     (clarsimp simp: add_job_def add_table_def remove_job_def remove_table_def Let_def
        keys_map_assign keys_map_erase split: if_splits)+

lemma run_ops_job_ids:
  assumes "run_ops ops m = Inr (rs, m')"
    and "0 \<le> next_job_id_db m"
    and "next_job_id_db m + int (num_add_job ops) < 2147483648"
  shows "issued_job_ids rs = map (\<lambda>k. next_job_id_db m + int k) [0..<num_add_job ops]
         \<and> next_job_id_db m' = next_job_id_db m + int (num_add_job ops)"
  using assms
proof (induction ops arbitrary: m rs)
  case Nil
  then show ?case by simp
next
  case (Cons x xs)
  obtain r m1 rs1 where st: "apply_op x m = Inr (r, m1)"
    and rest: "run_ops xs m1 = Inr (rs1, m')" and rs: "rs = r # rs1"
    using Cons.prems(1) by (auto split: sum.splits prod.splits)
  show ?case
  proof (cases "\<exists>n. x = AddJob n")
    case True
    then obtain n where x: "x = AddJob n" by blast
    have r: "r = JobId (next_job_id_db m)"
      and c1: "next_job_id_db m1 = next_job_id_db m + 1"
      using apply_op_job[OF st] x Cons.prems(2,3) by (auto simp: wrap32_def)
    have "issued_job_ids rs1 = map (\<lambda>k. next_job_id_db m1 + int k) [0..<num_add_job xs]
         \<and> next_job_id_db m' = next_job_id_db m1 + int (num_add_job xs)"
      using Cons.IH[OF rest] c1 Cons.prems(2,3) x by simp
    then show ?thesis
      using r rs c1 x by (simp add: map_upt_Suc del: upt_Suc)
  next
    case False
    then have nr: "\<forall>i. r \<noteq> JobId i" and c1: "next_job_id_db m1 = next_job_id_db m"
      and cnt: "num_add_job (x # xs) = num_add_job xs"
      using apply_op_job[OF st] by (cases x; simp)+
    have "issued_job_ids rs1 = map (\<lambda>k. next_job_id_db m1 + int k) [0..<num_add_job xs]
         \<and> next_job_id_db m' = next_job_id_db m1 + int (num_add_job xs)"
      using Cons.IH[OF rest] c1 cnt Cons.prems(2,3) by simp
    then show ?thesis
      using nr rs c1 cnt by (cases r) auto
  qed
qed

lemma run_ops_job_keys:
  assumes "run_ops ops m = Inr (rs, m')"
    and "0 \<le> next_job_id_db m"
    and "next_job_id_db m + int (num_add_job ops) < 2147483648"
    and "\<forall>k\<in>fst ` set (job_names_db m). k < next_job_id_db m"
  shows "\<forall>k\<in>fst ` set (job_names_db m'). k < next_job_id_db m'"
  using assms
proof (induction ops arbitrary: m rs)
  case Nil
  then show ?case by simp
next
  case (Cons x xs)
  obtain r m1 rs1 where st: "apply_op x m = Inr (r, m1)"
    and rest: "run_ops xs m1 = Inr (rs1, m')"
    using Cons.prems(1) by (auto split: sum.splits prod.splits)
  have step: "0 \<le> next_job_id_db m1
      \<and> next_job_id_db m1 + int (num_add_job xs) < 2147483648
      \<and> (\<forall>k\<in>fst ` set (job_names_db m1). k < next_job_id_db m1)"
  proof (cases "\<exists>n. x = AddJob n")
    case True
    then obtain n where x: "x = AddJob n" by blast
    have "next_job_id_db m1 = next_job_id_db m + 1"
      and "fst ` set (job_names_db m1) = insert (next_job_id_db m) (fst ` set (job_names_db m))"
      using apply_op_job[OF st] x Cons.prems(2,3) by (auto simp: wrap32_def)
    then show ?thesis using Cons.prems(2,3,4) x by auto
  next
    case False
    then have c1: "next_job_id_db m1 = next_job_id_db m"
      and sub: "fst ` set (job_names_db m1) \<subseteq> fst ` set (job_names_db m)"
      and cnt: "num_add_job (x # xs) = num_add_job xs"
      using apply_op_job[OF st] by (cases x; simp)+
    have b: "\<forall>k\<in>fst ` set (job_names_db m1). k < next_job_id_db m1"
    proof
      fix k assume "k \<in> fst ` set (job_names_db m1)"
      then have "k \<in> fst ` set (job_names_db m)" using sub by (rule subsetD[rotated])
      then have "k < next_job_id_db m" using Cons.prems(4) by (rule bspec[rotated])
      then show "k < next_job_id_db m1" by (simp only: c1)
    qed
    have "0 \<le> next_job_id_db m1" using Cons.prems(2) by (simp only: c1)
    moreover have "next_job_id_db m1 + int (num_add_job xs) < 2147483648"
      using Cons.prems(3) by (simp only: c1 cnt)
    ultimately show ?thesis using b by (intro conjI)
  qed
  show ?case
    using Cons.IH[OF rest] step by blast
qed


lemma num_add_table_append: "num_add_table (xs @ ys) = num_add_table xs + num_add_table ys"
  by (induction xs rule: num_add_table.induct) simp_all

lemma num_add_job_append: "num_add_job (xs @ ys) = num_add_job xs + num_add_job ys"
  by (induction xs rule: num_add_job.induct) simp_all

lemma run_ops_split:
  assumes "run_ops (xs @ ys) m = Inr (rs, m')"
  obtains rs1 m1 rs2 where "run_ops xs m = Inr (rs1, m1)" and "run_ops ys m1 = Inr (rs2, m')"
    and "rs = rs1 @ rs2"
  using assms by (auto simp: run_ops_append split: sum.splits prod.splits)

lemma fresh_table_inv:
  "0 \<le> next_table_id_db DatabaseMetadata_new \<and>
   (\<forall>k\<in>fst ` set (table_names_db DatabaseMetadata_new). k < next_table_id_db DatabaseMetadata_new)"
  by (simp add: DatabaseMetadata_new_def)

lemma fresh_job_inv:
  "0 \<le> next_job_id_db DatabaseMetadata_new \<and>
   (\<forall>k\<in>fst ` set (job_names_db DatabaseMetadata_new). k < next_job_id_db DatabaseMetadata_new)"
  by (simp add: DatabaseMetadata_new_def)

lemma removed_table_not_reissued:
  assumes run: "run_ops (pre @ RemoveTable i # post) DatabaseMetadata_new = Inr (rs, m)"
    and nt: "num_add_table (pre @ RemoveTable i # post) < 2147483648"
  shows "i \<notin> set (issued_table_ids (drop (Suc (length pre)) rs))"
proof -
  obtain rs1 m1 rs2 where r1: "run_ops pre DatabaseMetadata_new = Inr (rs1, m1)"
    and r2: "run_ops (RemoveTable i # post) m1 = Inr (rs2, m)" and rs: "rs = rs1 @ rs2"
    using run by (rule run_ops_split)
  obtain m2 rs3 where rm: "remove_table i m1 = Inr m2"
    and r3: "run_ops post m2 = Inr (rs3, m)" and rs2: "rs2 = Removed # rs3"
    using r2 by (auto split: sum.splits prod.splits)
  have len: "length rs1 = length pre" using r1 by (rule run_ops_length)
  have dr: "drop (Suc (length pre)) rs = rs3" using rs rs2 len by simp
  have n1: "int (num_add_table pre) + int (num_add_table post) < 2147483648"
    using nt by (simp add: num_add_table_append)
  have c0: "next_table_id_db DatabaseMetadata_new = 0" by (simp add: DatabaseMetadata_new_def)
  have b1: "next_table_id_db DatabaseMetadata_new + int (num_add_table pre) < 2147483648"
    using n1 c0 by simp
  have c1: "next_table_id_db m1 = int (num_add_table pre)"
    using run_ops_table_ids[OF r1 _ b1] c0 by simp
  have k1: "\<forall>k\<in>fst ` set (table_names_db m1). k < next_table_id_db m1"
    using run_ops_table_keys[OF r1 _ b1] fresh_table_inv by blast
  have "i \<in> fst ` set (table_names_db m1)"
    using rm by (simp add: remove_table_def map_count_pos split: if_splits)
  then have lt: "i < next_table_id_db m1" using k1 by blast
  have c2: "next_table_id_db m2 = next_table_id_db m1"
    using rm by (auto simp: remove_table_def split: if_splits)
  have "issued_table_ids rs3 = map (\<lambda>k. next_table_id_db m2 + int k) [0..<num_add_table post]"
    using run_ops_table_ids[OF r3] c1 c2 n1 by simp
  then have "\<forall>j\<in>set (issued_table_ids rs3). next_table_id_db m1 \<le> j"
    using c2 by auto
  then show ?thesis using lt dr by auto
qed

lemma removed_job_not_reissued:
  assumes run: "run_ops (pre @ RemoveJob i # post) DatabaseMetadata_new = Inr (rs, m)"
    and nt: "num_add_job (pre @ RemoveJob i # post) < 2147483648"
  shows "i \<notin> set (issued_job_ids (drop (Suc (length pre)) rs))"
proof -
  obtain rs1 m1 rs2 where r1: "run_ops pre DatabaseMetadata_new = Inr (rs1, m1)"
    and r2: "run_ops (RemoveJob i # post) m1 = Inr (rs2, m)" and rs: "rs = rs1 @ rs2"
    using run by (rule run_ops_split)
  obtain m2 rs3 where rm: "remove_job i m1 = Inr m2"
    and r3: "run_ops post m2 = Inr (rs3, m)" and rs2: "rs2 = Removed # rs3"
    using r2 by (auto split: sum.splits prod.splits)
  have len: "length rs1 = length pre" using r1 by (rule run_ops_length)
  have dr: "drop (Suc (length pre)) rs = rs3" using rs rs2 len by simp
  have n1: "int (num_add_job pre) + int (num_add_job post) < 2147483648"
    using nt by (simp add: num_add_job_append)
  have c0: "next_job_id_db DatabaseMetadata_new = 0" by (simp add: DatabaseMetadata_new_def)
  have b1: "next_job_id_db DatabaseMetadata_new + int (num_add_job pre) < 2147483648"
    using n1 c0 by simp
  have c1: "next_job_id_db m1 = int (num_add_job pre)"
    using run_ops_job_ids[OF r1 _ b1] c0 by simp
  have k1: "\<forall>k\<in>fst ` set (job_names_db m1). k < next_job_id_db m1"
    using run_ops_job_keys[OF r1 _ b1] fresh_job_inv by blast
  have "i \<in> fst ` set (job_names_db m1)"
    using rm by (simp add: remove_job_def map_count_pos split: if_splits)
  then have lt: "i < next_job_id_db m1" using k1 by blast
  have c2: "next_job_id_db m2 = next_job_id_db m1"
    using rm by (auto simp: remove_job_def split: if_splits)
  have "issued_job_ids rs3 = map (\<lambda>k. next_job_id_db m2 + int k) [0..<num_add_job post]"
    using run_ops_job_ids[OF r3] c1 c2 n1 by simp
  then have "\<forall>j\<in>set (issued_job_ids rs3). next_job_id_db m1 \<le> j"
    using c2 by auto
  then show ?thesis using lt dr by auto
qed

lemma run_ops_prefix_counters:
  assumes run: "run_ops ops DatabaseMetadata_new = Inr (rs, m)"
    and nt: "num_add_table ops < 2147483648" and nj: "num_add_job ops < 2147483648"
  shows "\<exists>rs' m'. run_ops (take k ops) DatabaseMetadata_new = Inr (rs', m') \<and>
           next_table_id_db m' \<le> next_table_id_db m \<and> next_job_id_db m' \<le> next_job_id_db m"
proof -
  have "run_ops (take k ops @ drop k ops) DatabaseMetadata_new = Inr (rs, m)"
    using run by simp
  then obtain rs1 m1 rs2 where r1: "run_ops (take k ops) DatabaseMetadata_new = Inr (rs1, m1)"
    and r2: "run_ops (drop k ops) m1 = Inr (rs2, m)"
    by (rule run_ops_split)
  have c0: "next_table_id_db DatabaseMetadata_new = 0" "next_job_id_db DatabaseMetadata_new = 0"
    by (simp_all add: DatabaseMetadata_new_def)
  have tt: "num_add_table ops = num_add_table (take k ops) + num_add_table (drop k ops)"
    using num_add_table_append[of "take k ops" "drop k ops"] by simp
  have jj: "num_add_job ops = num_add_job (take k ops) + num_add_job (drop k ops)"
    using num_add_job_append[of "take k ops" "drop k ops"] by simp
  have t1: "next_table_id_db m1 = int (num_add_table (take k ops))"
    using run_ops_table_ids[OF r1] c0 nt tt by simp
  have j1: "next_job_id_db m1 = int (num_add_job (take k ops))"
    using run_ops_job_ids[OF r1] c0 nj jj by simp
  have t2: "next_table_id_db m = int (num_add_table ops)"
    using run_ops_table_ids[OF run] c0 nt by simp
  have j2: "next_job_id_db m = int (num_add_job ops)"
    using run_ops_job_ids[OF run] c0 nj by simp
  show ?thesis using r1 t1 t2 j1 j2 tt jj by simp
qed





lemma add_remove_rounds_counter:
  assumes "table_names_db m = []" and "int32 (next_table_id_db m)"
  shows "add_remove_rounds k n m =
           Inr (m\<lparr>next_table_id_db := wrap32 (next_table_id_db m + int k)\<rparr>)"
  using assms
proof (induction k arbitrary: m)
  case 0
  then show ?case by (simp add: wrap32_id)
next
  case (Suc k)
  let ?c = "next_table_id_db m"
  let ?m1 = "m\<lparr>next_table_id_db := wrap32 (?c + 1),
               table_names_db := map_assign ?c n (table_names_db m)\<rparr>"
  let ?m2 = "m\<lparr>next_table_id_db := wrap32 (?c + 1)\<rparr>"
  have at: "add_table n m = (?c, ?m1)"
    by (simp add: add_table_def Let_def)
  have rm: "remove_table ?c ?m1 = Inr ?m2"
    using Suc.prems(1) by (simp add: remove_table_def map_count_def)
  have step: "add_remove_rounds (Suc k) n m = add_remove_rounds k n ?m2"
    by (simp add: at rm)
  have e: "table_names_db ?m2 = []" using Suc.prems(1) by simp
  have r: "int32 (next_table_id_db ?m2)" by (simp add: wrap32_def int32_def)
  have w: "wrap32 (wrap32 (?c + 1) + int k) = wrap32 (?c + int (Suc k))"
  proof -
    have "?c + 1 + int k = ?c + int (Suc k)" by simp
    then show ?thesis by (simp only: wrap32_add)
  qed
  have "add_remove_rounds k n ?m2 =
          Inr (?m2\<lparr>next_table_id_db := wrap32 (next_table_id_db ?m2 + int k)\<rparr>)"
    using Suc.IH[OF e r] .
  then show ?case using step w by simp
qed

lemma fresh_counters:
  "next_table_id_db DatabaseMetadata_new = 0" "next_job_id_db DatabaseMetadata_new = 0"
  by (simp_all add: DatabaseMetadata_new_def)

text \<open>
  C1 (amended). As long as fewer than \<open>2\<^sup>3\<^sup>1\<close> ids of a kind have been requested, so that
  the 32-bit counter has not overflowed: successive calls of \<^verbatim>\<open>add_table\<close> (and of
  \<^verbatim>\<open>add_job\<close>) on a fresh catalog return \<open>0, 1, \<dots>, n - 1\<close> in call order; in every run
  of calls on a fresh catalog that raises no assertion, the table ids issued are
  \<open>0, 1, \<dots>\<close> in call order whatever removals come in between, the counter equals the
  number of ids issued, an id that was removed is not returned by any later call, and the
  counters after every prefix of the run are at most the counters at its end; the same
  holds for jobs.
\<close>

theorem id_allocation_monotone:
  "(length names < 2147483648 \<longrightarrow>
      fst (add_tables names DatabaseMetadata_new) = map int [0..<length names] \<and>
      fst (add_jobs names DatabaseMetadata_new) = map int [0..<length names]) \<and>
   (run_ops ops DatabaseMetadata_new = Inr (rs, m) \<and>
    num_add_table ops < 2147483648 \<and> num_add_job ops < 2147483648 \<longrightarrow>
      issued_table_ids rs = map int [0..<num_add_table ops] \<and>
      issued_job_ids rs = map int [0..<num_add_job ops] \<and>
      next_table_id_db m = int (num_add_table ops) \<and>
      next_job_id_db m = int (num_add_job ops) \<and>
      (\<forall>pre i post. ops = pre @ RemoveTable i # post \<longrightarrow>
         i \<notin> set (issued_table_ids (drop (Suc (length pre)) rs))) \<and>
      (\<forall>pre i post. ops = pre @ RemoveJob i # post \<longrightarrow>
         i \<notin> set (issued_job_ids (drop (Suc (length pre)) rs))) \<and>
      (\<forall>k. \<exists>rs' m'. run_ops (take k ops) DatabaseMetadata_new = Inr (rs', m') \<and>
         next_table_id_db m' \<le> next_table_id_db m \<and> next_job_id_db m' \<le> next_job_id_db m))"
proof (intro conjI impI)
  assume n: "length names < 2147483648"
  have r: "int32 (next_table_id_db DatabaseMetadata_new)" "int32 (next_job_id_db DatabaseMetadata_new)"
    by (simp_all add: fresh_counters int32_def)
  have "\<forall>k\<in>set [0..<length names]. wrap32 (int k) = int k"
    using n by (simp add: wrap32_id int32_def)
  then have eq: "map (\<lambda>k. wrap32 (int k)) [0..<length names] = map int [0..<length names]"
    by (simp only: map_eq_conv)
  show "fst (add_tables names DatabaseMetadata_new) = map int [0..<length names]"
    using add_tables_ids[OF r(1), of names] eq by (simp add: fresh_counters)
  show "fst (add_jobs names DatabaseMetadata_new) = map int [0..<length names]"
    using add_jobs_ids[OF r(2), of names] eq by (simp add: fresh_counters)
next
  assume a: "run_ops ops DatabaseMetadata_new = Inr (rs, m) \<and>
    num_add_table ops < 2147483648 \<and> num_add_job ops < 2147483648"
  then have run: "run_ops ops DatabaseMetadata_new = Inr (rs, m)"
    and nt: "num_add_table ops < 2147483648" and nj: "num_add_job ops < 2147483648"
    by simp_all
  have t: "issued_table_ids rs = map int [0..<num_add_table ops] \<and>
           next_table_id_db m = int (num_add_table ops)"
    using run_ops_table_ids[OF run] nt by (simp add: fresh_counters)
  have j: "issued_job_ids rs = map int [0..<num_add_job ops] \<and>
           next_job_id_db m = int (num_add_job ops)"
    using run_ops_job_ids[OF run] nj by (simp add: fresh_counters)
  show "issued_table_ids rs = map int [0..<num_add_table ops]" using t by simp
  show "issued_job_ids rs = map int [0..<num_add_job ops]" using j by simp
  show "next_table_id_db m = int (num_add_table ops)" using t by simp
  show "next_job_id_db m = int (num_add_job ops)" using j by simp
  show "\<forall>pre i post. ops = pre @ RemoveTable i # post \<longrightarrow>
            i \<notin> set (issued_table_ids (drop (Suc (length pre)) rs))"
    using removed_table_not_reissued run nt by blast
  show "\<forall>pre i post. ops = pre @ RemoveJob i # post \<longrightarrow>
            i \<notin> set (issued_job_ids (drop (Suc (length pre)) rs))"
    using removed_job_not_reissued run nj by blast
  show "\<forall>k. \<exists>rs' m'. run_ops (take k ops) DatabaseMetadata_new = Inr (rs', m') \<and>
            next_table_id_db m' \<le> next_table_id_db m \<and> next_job_id_db m' \<le> next_job_id_db m"
    using run_ops_prefix_counters[OF run nt nj] by blast
qed

theorem id_allocation_monotone_witness:
  "run_ops [AddTable ''videos'', AddTable ''frames'', RemoveTable 0, AddTable ''new'',
            AddJob ''ingest'', RemoveJob 0, AddJob ''detect'']
     DatabaseMetadata_new =
     Inr ([TableId 0, TableId 1, Removed, TableId 2, JobId 0, Removed, JobId 1],
          \<lparr>descriptor_db = empty_DatabaseDescriptor, next_table_id_db = 3, next_job_id_db = 2,
           table_names_db = [(1, ''frames''), (2, ''new'')],
           job_names_db = [(1, ''detect'')]\<rparr>) \<and>
   fst (add_tables [''videos'', ''frames''] DatabaseMetadata_new) = [0, 1] \<and>
   fst (add_jobs [''videos'', ''frames''] DatabaseMetadata_new) = [0, 1] \<and>
   (0::int) \<notin> set (issued_table_ids [TableId 2, JobId 0, Removed, JobId 1]) \<and>
   (0::int) \<notin> set (issued_job_ids [JobId 1])"
proof -
  let ?ops = "[AddTable ''videos'', AddTable ''frames'', RemoveTable 0, AddTable ''new'',
               AddJob ''ingest'', RemoveJob 0, AddJob ''detect'']"
  let ?rs = "[TableId 0, TableId 1, Removed, TableId 2, JobId 0, Removed, JobId 1]"
  let ?m = "\<lparr>descriptor_db = empty_DatabaseDescriptor, next_table_id_db = 3, next_job_id_db = 2,
           table_names_db = [(1, ''frames''), (2, ''new'')],
           job_names_db = [(1::int, ''detect'')]\<rparr>"
  have run: "run_ops ?ops DatabaseMetadata_new = Inr (?rs, ?m)"
    by (simp add: DatabaseMetadata_new_def add_table_def add_job_def remove_table_def
        remove_job_def map_count_def wrap32_def Let_def)
  have hyp: "run_ops ?ops DatabaseMetadata_new = Inr (?rs, ?m) \<and>
             num_add_table ?ops < 2147483648 \<and> num_add_job ?ops < 2147483648"
    using run by simp
  have len: "length [''videos'', ''frames''] < 2147483648" by simp
  note T = id_allocation_monotone[of "[''videos'', ''frames'']" ?ops ?rs ?m]
  have a: "fst (add_tables [''videos'', ''frames''] DatabaseMetadata_new) =
             map int [0..<length [''videos'', ''frames'']]"
    and b: "fst (add_jobs [''videos'', ''frames''] DatabaseMetadata_new) =
             map int [0..<length [''videos'', ''frames'']]"
    using T len by blast+
  have c: "\<forall>pre i post. ?ops = pre @ RemoveTable i # post \<longrightarrow>
         i \<notin> set (issued_table_ids (drop (Suc (length pre)) ?rs))"
    and d: "\<forall>pre i post. ?ops = pre @ RemoveJob i # post \<longrightarrow>
         i \<notin> set (issued_job_ids (drop (Suc (length pre)) ?rs))"
    using T hyp by blast+
  have c': "(0::int) \<notin> set (issued_table_ids (drop (Suc (length [AddTable ''videos'', AddTable ''frames''])) ?rs))"
    using c by (intro c[rule_format]) simp
  have d': "(0::int) \<notin> set (issued_job_ids (drop (Suc (length [AddTable ''videos'', AddTable ''frames'', RemoveTable 0, AddTable ''new'',
               AddJob ''ingest''])) ?rs))"
    using d by (intro d[rule_format]) simp
  have a': "map int [0..<length [''videos'', ''frames'']] = [0, 1]"
    by (simp add: upt_rec)
  show ?thesis using run a b c' d' a' by simp
qed

text \<open>
  The claim as stated, for every number of calls, fails: the counter is a 32-bit integer.
  The \<open>2\<^sup>3\<^sup>1 + 1\<close>-th successive \<^verbatim>\<open>add_table\<close> on a fresh catalog does not return
  \<open>2\<^sup>3\<^sup>1\<close>, and \<open>2\<^sup>3\<^sup>2\<close> rounds of adding a table and removing it again lead a fresh
  catalog back to the fresh catalog, whose next \<^verbatim>\<open>add_table\<close> returns \<open>0\<close> once more,
  the id that the first round issued and removed.
\<close>

theorem id_allocation_counterexample:
  "fst (add_tables (replicate 2147483649 ''t'') DatabaseMetadata_new) \<noteq> map int [0..<2147483649]
   \<and> add_remove_rounds 4294967296 ''t'' DatabaseMetadata_new = Inr DatabaseMetadata_new
   \<and> fst (add_table ''t'' DatabaseMetadata_new) = 0"
proof (intro conjI)
  show "fst (add_tables (replicate 2147483649 ''t'') DatabaseMetadata_new) \<noteq> map int [0..<2147483649]"
proof
  assume a: "fst (add_tables (replicate 2147483649 ''t'') DatabaseMetadata_new) = map int [0..<2147483649]"
  have r: "int32 (next_table_id_db DatabaseMetadata_new)"
    by (simp add: DatabaseMetadata_new_def int32_def)
  have "map (\<lambda>k. wrap32 (int k)) [0..<2147483649] = map int [0..<2147483649]"
    using a add_tables_ids[OF r, of "replicate 2147483649 ''t''"]
    by (simp add: DatabaseMetadata_new_def)
  then have "\<forall>k\<in>set [0..<2147483649]. wrap32 (int k) = int k"
    by (simp only: map_eq_conv)
  moreover have "(2147483648::nat) \<in> set [0..<2147483649]"
    by simp
  ultimately have "wrap32 (int 2147483648) = int 2147483648"
    by blast
  then show False
    by (simp add: wrap32_def)
qed
  have e: "table_names_db DatabaseMetadata_new = []" by (simp add: DatabaseMetadata_new_def)
  have r: "int32 (next_table_id_db DatabaseMetadata_new)"
    by (simp add: fresh_counters int32_def)
  have "add_remove_rounds 4294967296 ''t'' DatabaseMetadata_new =
          Inr (DatabaseMetadata_new\<lparr>next_table_id_db := wrap32 (next_table_id_db DatabaseMetadata_new + int 4294967296)\<rparr>)"
    by (rule add_remove_rounds_counter[OF e r])
  then show "add_remove_rounds 4294967296 ''t'' DatabaseMetadata_new = Inr DatabaseMetadata_new"
    by (simp add: DatabaseMetadata_new_def wrap32_def)
  show "fst (add_table ''t'' DatabaseMetadata_new) = 0"
    by (simp add: add_table_fst fresh_counters)
qed

section \<open>The catalog survives serialisation\<close>

lemma ordered_Cons: "ordered (e # es) = ((\<forall>x\<in>set es. fst e < fst x) \<and> ordered es)"
  by (auto simp: ordered_def)

lemma ordered_Nil: "ordered []"
  by (simp add: ordered_def)

lemma keys_map_insert: "fst ` set (map_insert k v es) = insert k (fst ` set es)"
  by (induction es) auto

lemma ordered_map_assign: "ordered es \<Longrightarrow> ordered (map_assign k v es)"
proof (induction es)
  case Nil
  show ?case by (simp add: ordered_def)
next
  case (Cons e es)
  have "\<forall>x\<in>set (map_assign k v es). fst e < fst x" if "fst e < k"
  proof
    fix x assume "x \<in> set (map_assign k v es)"
    then have "fst x \<in> insert k (fst ` set es)" using keys_map_assign[of k v es] by blast
    then show "fst e < fst x" using that Cons.prems by (auto simp: ordered_Cons)
  qed
  then show ?case using Cons by (auto simp: ordered_Cons)
qed

lemma ordered_map_insert: "ordered es \<Longrightarrow> ordered (map_insert k v es)"
proof (induction es)
  case Nil
  show ?case by (simp add: ordered_def)
next
  case (Cons e es)
  have "\<forall>x\<in>set (map_insert k v es). fst e < fst x" if "fst e < k"
  proof
    fix x assume "x \<in> set (map_insert k v es)"
    then have "fst x \<in> insert k (fst ` set es)" using keys_map_insert[of k v es] by blast
    then show "fst e < fst x" using that Cons.prems by (auto simp: ordered_Cons)
  qed
  then show ?case using Cons by (auto simp: ordered_Cons)
qed

lemma ordered_map_erase: "ordered es \<Longrightarrow> ordered (map_erase k es)"
proof (induction es)
  case Nil
  show ?case by (simp add: ordered_def)
next
  case (Cons e es)
  have "\<forall>x\<in>set (map_erase k es). fst e < fst x"
  proof
    fix x assume "x \<in> set (map_erase k es)"
    then have "fst x \<in> fst ` set es" using keys_map_erase[of k es] by blast
    then show "fst e < fst x" using Cons.prems by (auto simp: ordered_Cons)
  qed
  then show ?case using Cons by (auto simp: ordered_Cons)
qed

lemma ordered_insert_all: "ordered acc \<Longrightarrow> ordered (insert_all es acc)"
  by (induction es arbitrary: acc) (simp_all add: ordered_map_insert)

lemma map_insert_last: "\<forall>x\<in>set acc. fst x < k \<Longrightarrow> map_insert k v acc = acc @ [(k, v)]"
  by (induction acc) auto

lemma ordered_append_Cons:
  "ordered (acc @ e # es) \<Longrightarrow> (\<forall>x\<in>set acc. fst x < fst e) \<and> ordered ((acc @ [e]) @ es)"
  by (auto simp: ordered_def sorted_wrt_append)

lemma insert_all_ordered: "ordered (acc @ es) \<Longrightarrow> insert_all es acc = acc @ es"
proof (induction es arbitrary: acc)
  case Nil
  show ?case by simp
next
  case (Cons e es)
  have a: "\<forall>x\<in>set acc. fst x < fst e" and b: "ordered ((acc @ [e]) @ es)"
    using ordered_append_Cons[OF Cons.prems] by simp_all
  have "map_insert (fst e) (snd e) acc = acc @ [e]"
    using map_insert_last[OF a, of "snd e"] by simp
  then show ?case using Cons.IH[OF b] by simp
qed

lemma catalog_ordered_new: "catalog_ordered DatabaseMetadata_new"
  by (simp add: catalog_ordered_def DatabaseMetadata_new_def ordered_Nil)

lemma catalog_ordered_of: "catalog_ordered (DatabaseMetadata_of d)"
  by (simp add: catalog_ordered_def DatabaseMetadata_of_def ordered_insert_all ordered_Nil)

lemma catalog_ordered_apply_op:
  "catalog_ordered m \<Longrightarrow> apply_op x m = Inr (r, m') \<Longrightarrow> catalog_ordered m'"
  by (cases x)
     (auto simp: catalog_ordered_def add_table_def add_job_def remove_table_def remove_job_def
        Let_def ordered_map_assign ordered_map_erase split: if_splits)

lemma catalog_ordered_run_ops:
  "catalog_ordered m \<Longrightarrow> run_ops ops m = Inr (rs, m') \<Longrightarrow> catalog_ordered m'"
proof (induction ops arbitrary: m rs)
  case Nil
  then show ?case by simp
next
  case (Cons x xs)
  obtain r m1 rs1 where st: "apply_op x m = Inr (r, m1)"
    and rest: "run_ops xs m1 = Inr (rs1, m')"
    using Cons.prems(2) by (auto split: sum.splits prod.splits)
  show ?case
    using Cons.IH[OF catalog_ordered_apply_op[OF Cons.prems(1) st] rest] .
qed

lemma reload_members:
  assumes "catalog_ordered m"
  shows "next_table_id_db (reload m) = next_table_id_db m"
    and "next_job_id_db (reload m) = next_job_id_db m"
    and "table_names_db (reload m) = table_names_db m"
    and "job_names_db (reload m) = job_names_db m"
  using assms insert_all_ordered[of "[]" "table_names_db m"] insert_all_ordered[of "[]" "job_names_db m"]
  by (simp_all add: reload_def DatabaseMetadata_of_def DatabaseMetadata_get_descriptor_def
      Let_def catalog_ordered_def)

text \<open>
  C5. Take a fresh catalog or one constructed from any descriptor, and apply any sequence
  of \<^verbatim>\<open>add_table\<close>, \<^verbatim>\<open>add_job\<close>, \<^verbatim>\<open>remove_table\<close> and \<^verbatim>\<open>remove_job\<close> calls that
  raises no assertion. Serialising the result with \<^verbatim>\<open>get_descriptor\<close> and constructing
  a new catalog from that descriptor gives an object with the same two counters and the
  same answers to \<^verbatim>\<open>has_table\<close>, \<^verbatim>\<open>get_table_id\<close>, \<^verbatim>\<open>get_table_name\<close>, \<^verbatim>\<open>has_job\<close>,
  \<^verbatim>\<open>get_job_id\<close> and \<^verbatim>\<open>get_job_name\<close> on every input. The descriptor returned is built
  from the live members alone: whatever descriptor the object held before the call, the
  result lists the current counters and entries.
\<close>

theorem catalog_round_trip:
  assumes start: "m0 = DatabaseMetadata_new \<or> m0 = DatabaseMetadata_of d0"
    and run: "run_ops ops m0 = Inr (rs, m)"
  shows "next_table_id_db (reload m) = next_table_id_db m \<and>
         next_job_id_db (reload m) = next_job_id_db m \<and>
         has_table_name (reload m) n = has_table_name m n \<and>
         has_table (reload m) i = has_table m i \<and>
         get_table_id (reload m) n = get_table_id m n \<and>
         get_table_name (reload m) i = get_table_name m i \<and>
         has_job_name (reload m) n = has_job_name m n \<and>
         has_job (reload m) i = has_job m i \<and>
         get_job_id (reload m) n = get_job_id m n \<and>
         get_job_name (reload m) i = get_job_name m i \<and>
         fst (DatabaseMetadata_get_descriptor (m\<lparr>descriptor_db := stale\<rparr>)) =
           \<lparr>next_table_id = next_table_id_db m, next_job_id = next_job_id_db m,
            tables = table_names_db m, jobs = job_names_db m\<rparr>"
proof -
  have "catalog_ordered m0"
    using start catalog_ordered_new catalog_ordered_of by blast
  then have o: "catalog_ordered m"
    using run by (rule catalog_ordered_run_ops)
  note mem = reload_members[OF o]
  show ?thesis
    by (simp add: mem has_table_name_def has_table_def get_table_id_def get_table_name_def
        has_job_name_def has_job_def get_job_id_def get_job_name_def
        DatabaseMetadata_get_descriptor_def Let_def)
qed

text \<open>
  A fresh catalog after three tables and two jobs were added and the first of each
  removed, serialised and constructed again.
\<close>

theorem catalog_round_trip_witness:
  "run_ops [AddTable ''videos'', AddTable ''frames'', RemoveTable 0, AddTable ''new'',
            AddJob ''ingest'', RemoveJob 0, AddJob ''detect'']
     DatabaseMetadata_new =
     Inr ([TableId 0, TableId 1, Removed, TableId 2, JobId 0, Removed, JobId 1],
          \<lparr>descriptor_db = empty_DatabaseDescriptor, next_table_id_db = 3, next_job_id_db = 2,
           table_names_db = [(1, ''frames''), (2, ''new'')],
           job_names_db = [(1, ''detect'')]\<rparr>) \<and>
   next_table_id_db (reload \<lparr>descriptor_db = empty_DatabaseDescriptor, next_table_id_db = 3,
     next_job_id_db = 2, table_names_db = [(1, ''frames''), (2, ''new'')],
     job_names_db = [(1, ''detect'')]\<rparr>) = 3 \<and>
   has_table_name (reload \<lparr>descriptor_db = empty_DatabaseDescriptor, next_table_id_db = 3,
     next_job_id_db = 2, table_names_db = [(1, ''frames''), (2, ''new'')],
     job_names_db = [(1, ''detect'')]\<rparr>) ''new'' \<and>
   get_table_id (reload \<lparr>descriptor_db = empty_DatabaseDescriptor, next_table_id_db = 3,
     next_job_id_db = 2, table_names_db = [(1, ''frames''), (2, ''new'')],
     job_names_db = [(1, ''detect'')]\<rparr>) ''new'' = Inr 2 \<and>
   get_job_name (reload \<lparr>descriptor_db = empty_DatabaseDescriptor, next_table_id_db = 3,
     next_job_id_db = 2, table_names_db = [(1, ''frames''), (2, ''new'')],
     job_names_db = [(1, ''detect'')]\<rparr>) 1 = Inr ''detect''"
proof -
  let ?ops = "[AddTable ''videos'', AddTable ''frames'', RemoveTable 0, AddTable ''new'',
               AddJob ''ingest'', RemoveJob 0, AddJob ''detect'']"
  let ?rs = "[TableId 0, TableId 1, Removed, TableId 2, JobId 0, Removed, JobId 1]"
  let ?m = "\<lparr>descriptor_db = empty_DatabaseDescriptor, next_table_id_db = 3, next_job_id_db = 2,
           table_names_db = [(1, ''frames''), (2, ''new'')],
           job_names_db = [(1::int, ''detect'')]\<rparr>"
  have run: "run_ops ?ops DatabaseMetadata_new = Inr (?rs, ?m)"
    by (simp add: DatabaseMetadata_new_def add_table_def add_job_def remove_table_def
        remove_job_def map_count_def wrap32_def Let_def)
  have start: "DatabaseMetadata_new = DatabaseMetadata_new \<or>
               DatabaseMetadata_new = DatabaseMetadata_of empty_DatabaseDescriptor"
    by simp
  note T = catalog_round_trip[OF start run, of "''new''" 1 empty_DatabaseDescriptor]
  have a: "next_table_id_db (reload ?m) = next_table_id_db ?m"
    and b: "has_table_name (reload ?m) ''new'' = has_table_name ?m ''new''"
    and c: "get_table_id (reload ?m) ''new'' = get_table_id ?m ''new''"
    and d: "get_job_name (reload ?m) 1 = get_job_name ?m 1"
    using T by blast+
  have a': "next_table_id_db (reload ?m) = 3"
    using a by simp
  have "has_table_name ?m ''new''"
    by (simp add: has_table_name_def)
  then have b': "has_table_name (reload ?m) ''new''"
    using b by simp
  have "get_table_id ?m ''new'' = Inr 2"
    by (simp add: get_table_id_def)
  then have c': "get_table_id (reload ?m) ''new'' = Inr 2"
    using c by simp
  have "get_job_name ?m 1 = Inr ''detect''"
    by (simp add: get_job_name_def)
  then have d': "get_job_name (reload ?m) 1 = Inr ''detect''"
    using d by simp
  from run a' b' c' d' show ?thesis by blast
qed

section \<open>Lookups by name and by id\<close>

lemma find_id_absent: "n \<notin> snd ` set es \<Longrightarrow> find_id n es d = d"
  by (induction es) auto

lemma find_id_first: "n \<notin> snd ` set pre \<Longrightarrow> find_id n (pre @ (i, n) # post) d = i"
  by (induction pre) auto

lemma find_id_member: "n \<in> snd ` set es \<Longrightarrow> (find_id n es d, n) \<in> set es"
  by (induction es) auto

lemma has_name_iff: "has_name n es = (n \<in> snd ` set es)"
  by (induction es) auto

text \<open>
  C7 (amended). \<^verbatim>\<open>get_table_id\<close> fails its assertion whenever no entry carries the name.
  When some entry does, it returns the id of the first such entry in id order, unless
  that id is \<open>-1\<close>, the value the loop starts from, in which case the assertion fails as
  well. In particular, in a catalog without the id \<open>-1\<close> it returns an id whose entry has
  the name. \<^verbatim>\<open>get_job_id\<close> behaves in the same way on the jobs.
\<close>

theorem get_id_by_name:
  "(n \<notin> snd ` set (table_names_db m) \<longrightarrow> get_table_id m n = Inl AssertionFailed) \<and>
   (table_names_db m = pre @ (i, n) # post \<and> n \<notin> snd ` set pre \<longrightarrow>
      get_table_id m n = (if i = - 1 then Inl AssertionFailed else Inr i)) \<and>
   (n \<in> snd ` set (table_names_db m) \<and> - 1 \<notin> fst ` set (table_names_db m) \<longrightarrow>
      (\<exists>k. get_table_id m n = Inr k \<and> (k, n) \<in> set (table_names_db m))) \<and>
   (n \<notin> snd ` set (job_names_db m) \<longrightarrow> get_job_id m n = Inl AssertionFailed) \<and>
   (job_names_db m = pre @ (i, n) # post \<and> n \<notin> snd ` set pre \<longrightarrow>
      get_job_id m n = (if i = - 1 then Inl AssertionFailed else Inr i)) \<and>
   (n \<in> snd ` set (job_names_db m) \<and> - 1 \<notin> fst ` set (job_names_db m) \<longrightarrow>
      (\<exists>k. get_job_id m n = Inr k \<and> (k, n) \<in> set (job_names_db m)))"
proof (intro conjI impI)
  show "get_table_id m n = Inl AssertionFailed" if "n \<notin> snd ` set (table_names_db m)"
    using find_id_absent[OF that, of "- 1"] by (simp add: get_table_id_def)
  show "get_job_id m n = Inl AssertionFailed" if "n \<notin> snd ` set (job_names_db m)"
    using find_id_absent[OF that, of "- 1"] by (simp add: get_job_id_def)
  show "get_table_id m n = (if i = - 1 then Inl AssertionFailed else Inr i)"
    if "table_names_db m = pre @ (i, n) # post \<and> n \<notin> snd ` set pre"
    using that find_id_first[of n pre i post "- 1"] by (simp add: get_table_id_def)
  show "get_job_id m n = (if i = - 1 then Inl AssertionFailed else Inr i)"
    if "job_names_db m = pre @ (i, n) # post \<and> n \<notin> snd ` set pre"
    using that find_id_first[of n pre i post "- 1"] by (simp add: get_job_id_def)
  show "\<exists>k. get_table_id m n = Inr k \<and> (k, n) \<in> set (table_names_db m)"
    if a: "n \<in> snd ` set (table_names_db m) \<and> - 1 \<notin> fst ` set (table_names_db m)"
  proof -
    have mem: "(find_id n (table_names_db m) (- 1), n) \<in> set (table_names_db m)"
      using a find_id_member by blast
    then have "find_id n (table_names_db m) (- 1) \<in> fst ` set (table_names_db m)"
      by force
    then have "find_id n (table_names_db m) (- 1) \<noteq> - 1" using a by metis
    then show ?thesis using mem by (simp add: get_table_id_def)
  qed
  show "\<exists>k. get_job_id m n = Inr k \<and> (k, n) \<in> set (job_names_db m)"
    if a: "n \<in> snd ` set (job_names_db m) \<and> - 1 \<notin> fst ` set (job_names_db m)"
  proof -
    have mem: "(find_id n (job_names_db m) (- 1), n) \<in> set (job_names_db m)"
      using a find_id_member by blast
    then have "find_id n (job_names_db m) (- 1) \<in> fst ` set (job_names_db m)"
      by force
    then have "find_id n (job_names_db m) (- 1) \<noteq> - 1" using a by metis
    then show ?thesis using mem by (simp add: get_job_id_def)
  qed
qed

theorem get_id_by_name_witness:
  "get_table_id (DatabaseMetadata_of \<lparr>next_table_id = 2, next_job_id = 1,
      tables = [(0, ''videos''), (1, ''frames'')], jobs = [(0, ''ingest'')]\<rparr>) ''frames'' = Inr 1 \<and>
   get_table_id (DatabaseMetadata_of \<lparr>next_table_id = 2, next_job_id = 1,
      tables = [(0, ''videos''), (1, ''frames'')], jobs = [(0, ''ingest'')]\<rparr>) ''missing''
      = Inl AssertionFailed \<and>
   get_job_id (DatabaseMetadata_of \<lparr>next_table_id = 2, next_job_id = 1,
      tables = [(0, ''videos''), (1, ''frames'')], jobs = [(0, ''ingest'')]\<rparr>) ''ingest'' = Inr 0 \<and>
   get_job_id (DatabaseMetadata_of \<lparr>next_table_id = 2, next_job_id = 1,
      tables = [(0, ''videos''), (1, ''frames'')], jobs = [(0, ''ingest'')]\<rparr>) ''missing''
      = Inl AssertionFailed"
proof -
  let ?m = "DatabaseMetadata_of \<lparr>next_table_id = 2, next_job_id = 1,
      tables = [(0, ''videos''), (1, ''frames'')], jobs = [(0, ''ingest'')]\<rparr>"
  have t: "table_names_db ?m = [(0, ''videos'')] @ (1, ''frames'') # [] \<and>
           ''frames'' \<notin> snd ` set [(0::int, ''videos'')]"
    by (simp add: DatabaseMetadata_of_def)
  have j: "job_names_db ?m = [] @ (0, ''ingest'') # [] \<and>
           ''ingest'' \<notin> snd ` set ([] :: (int \<times> string) list)"
    by (simp add: DatabaseMetadata_of_def)
  have tm: "''missing'' \<notin> snd ` set (table_names_db ?m)"
    by (simp add: DatabaseMetadata_of_def)
  have jm: "''missing'' \<notin> snd ` set (job_names_db ?m)"
    by (simp add: DatabaseMetadata_of_def)
  have a: "get_table_id ?m ''frames'' = (if (1::int) = - 1 then Inl AssertionFailed else Inr 1)"
    using get_id_by_name[of "''frames''" ?m "[(0, ''videos'')]" 1 "[]"] t by blast
  have b: "get_job_id ?m ''ingest'' = (if (0::int) = - 1 then Inl AssertionFailed else Inr 0)"
    using get_id_by_name[of "''ingest''" ?m "[]" 0 "[]"] j by blast
  have c: "get_table_id ?m ''missing'' = Inl AssertionFailed"
    and d: "get_job_id ?m ''missing'' = Inl AssertionFailed"
    using get_id_by_name[of "''missing''" ?m] tm jm by blast+
  show ?thesis using a b c d by simp
qed

text \<open>
  The claim as stated, for every catalog state, fails on the catalog constructed from a
  descriptor whose only table has the id \<open>-1\<close>: the entry carries the name, and
  \<^verbatim>\<open>get_table_id\<close> fails.
\<close>

theorem get_id_by_name_counterexample:
  "table_names_db (DatabaseMetadata_of
      \<lparr>next_table_id = 0, next_job_id = 0, tables = [(- 1, ''videos'')], jobs = []\<rparr>)
     = [(- 1, ''videos'')] \<and>
   has_table_name (DatabaseMetadata_of
      \<lparr>next_table_id = 0, next_job_id = 0, tables = [(- 1, ''videos'')], jobs = []\<rparr>) ''videos'' \<and>
   get_table_id (DatabaseMetadata_of
      \<lparr>next_table_id = 0, next_job_id = 0, tables = [(- 1, ''videos'')], jobs = []\<rparr>) ''videos''
     = Inl AssertionFailed"
  by (simp add: DatabaseMetadata_of_def has_table_name_def get_table_id_def)

lemma first_with_id_absent: "i \<notin> col_id ` set cs \<Longrightarrow> first_with_id i cs = None"
  by (induction cs) auto

lemma first_with_name_absent: "n \<notin> col_name ` set cs \<Longrightarrow> first_with_name n cs = None"
  by (induction cs) auto

lemma first_with_id_first:
  "col_id c \<notin> col_id ` set pre \<Longrightarrow> first_with_id (col_id c) (pre @ c # post) = Some c"
  by (induction pre) auto

lemma first_with_name_first:
  "col_name c \<notin> col_name ` set pre \<Longrightarrow> first_with_name (col_name c) (pre @ c # post) = Some c"
  by (induction pre) auto

lemma first_with_id_distinct:
  "distinct (map col_id cs) \<Longrightarrow> c \<in> set cs \<Longrightarrow> first_with_id (col_id c) cs = Some c"
  by (induction cs) (auto simp: rev_image_eqI)

lemma first_with_name_distinct:
  "distinct (map col_name cs) \<Longrightarrow> c \<in> set cs \<Longrightarrow> first_with_name (col_name c) cs = Some c"
  by (induction cs) (auto simp: rev_image_eqI)

text \<open>
  C8 (amended). Each accessor answers from the first column in list order that matches:
  \<^verbatim>\<open>column_name(i)\<close> and \<^verbatim>\<open>column_type(i)\<close> return the name and type of the first
  column with id \<open>i\<close>, \<^verbatim>\<open>column_id(n)\<close> the id of the first column named \<open>n\<close>. So when
  the ids and the names of the columns are pairwise distinct, every column
  \<open>{id = i, name = n, type = t}\<close> of the list gives \<^verbatim>\<open>column_id(n) = i\<close>,
  \<^verbatim>\<open>column_type(i) = t\<close> and \<^verbatim>\<open>column_name(i) = n\<close>. For an id or a name that no column
  has, the accessors end in \<^verbatim>\<open>LOG(FATAL)\<close>.
\<close>

theorem column_lookup:
  "(table_columns (descriptor_table t) = pre @ c # post \<and> col_id c \<notin> col_id ` set pre \<longrightarrow>
      TableMetadata_column_name t (col_id c) = Inr (col_name c) \<and>
      TableMetadata_column_type t (col_id c) = Inr (col_type c)) \<and>
   (table_columns (descriptor_table t) = pre @ c # post \<and> col_name c \<notin> col_name ` set pre \<longrightarrow>
      TableMetadata_column_id t (col_name c) = Inr (col_id c)) \<and>
   (c \<in> set (table_columns (descriptor_table t)) \<and>
    distinct (map col_id (table_columns (descriptor_table t))) \<and>
    distinct (map col_name (table_columns (descriptor_table t))) \<longrightarrow>
      TableMetadata_column_id t (col_name c) = Inr (col_id c) \<and>
      TableMetadata_column_type t (col_id c) = Inr (col_type c) \<and>
      TableMetadata_column_name t (col_id c) = Inr (col_name c)) \<and>
   (i \<notin> col_id ` set (table_columns (descriptor_table t)) \<longrightarrow>
      TableMetadata_column_name t i = Inl LogFatal \<and>
      TableMetadata_column_type t i = Inl LogFatal) \<and>
   (n \<notin> col_name ` set (table_columns (descriptor_table t)) \<longrightarrow>
      TableMetadata_column_id t n = Inl LogFatal)"
  by (simp add: TableMetadata_column_name_def TableMetadata_column_id_def
      TableMetadata_column_type_def first_with_id_absent first_with_name_absent
      first_with_id_first first_with_name_first first_with_id_distinct
      first_with_name_distinct)

text \<open>The columns \<open>{0, "index", INT}\<close> and \<open>{1, "frame", VIDEO}\<close>.\<close>

theorem column_lookup_witness:
  "TableMetadata_column_id (TableMetadata_of
     \<lparr>table_id = 0, table_name = ''t'', num_rows = 0, rows_per_item = 1,
      table_columns = [\<lparr>col_id = 0, col_name = ''index'', col_type = ColumnType_INT\<rparr>,
                       \<lparr>col_id = 1, col_name = ''frame'', col_type = ColumnType_VIDEO\<rparr>]\<rparr>)
     ''frame'' = Inr 1 \<and>
   TableMetadata_column_type (TableMetadata_of
     \<lparr>table_id = 0, table_name = ''t'', num_rows = 0, rows_per_item = 1,
      table_columns = [\<lparr>col_id = 0, col_name = ''index'', col_type = ColumnType_INT\<rparr>,
                       \<lparr>col_id = 1, col_name = ''frame'', col_type = ColumnType_VIDEO\<rparr>]\<rparr>)
     1 = Inr ColumnType_VIDEO \<and>
   TableMetadata_column_name (TableMetadata_of
     \<lparr>table_id = 0, table_name = ''t'', num_rows = 0, rows_per_item = 1,
      table_columns = [\<lparr>col_id = 0, col_name = ''index'', col_type = ColumnType_INT\<rparr>,
                       \<lparr>col_id = 1, col_name = ''frame'', col_type = ColumnType_VIDEO\<rparr>]\<rparr>)
     99 = Inl LogFatal \<and>
   TableMetadata_column_id (TableMetadata_of
     \<lparr>table_id = 0, table_name = ''t'', num_rows = 0, rows_per_item = 1,
      table_columns = [\<lparr>col_id = 0, col_name = ''index'', col_type = ColumnType_INT\<rparr>,
                       \<lparr>col_id = 1, col_name = ''frame'', col_type = ColumnType_VIDEO\<rparr>]\<rparr>)
     ''depth'' = Inl LogFatal"
proof -
  let ?c0 = "\<lparr>col_id = 0, col_name = ''index'', col_type = ColumnType_INT\<rparr>"
  let ?c1 = "\<lparr>col_id = 1, col_name = ''frame'', col_type = ColumnType_VIDEO\<rparr>"
  let ?t = "TableMetadata_of \<lparr>table_id = 0, table_name = ''t'', num_rows = 0,
              rows_per_item = 1, table_columns = [?c0, ?c1]\<rparr>"
  note T = column_lookup[of ?t "[?c0]" ?c1 "[]" 99 "''depth''"]
  have cols: "table_columns (descriptor_table ?t) = [?c0] @ ?c1 # []"
    by (simp add: TableMetadata_of_def)
  have h1: "table_columns (descriptor_table ?t) = [?c0] @ ?c1 # [] \<and>
            col_id ?c1 \<notin> col_id ` set [?c0]"
    using cols by simp
  have h2: "table_columns (descriptor_table ?t) = [?c0] @ ?c1 # [] \<and>
            col_name ?c1 \<notin> col_name ` set [?c0]"
    using cols by simp
  have h3: "?c1 \<in> set (table_columns (descriptor_table ?t)) \<and>
            distinct (map col_id (table_columns (descriptor_table ?t))) \<and>
            distinct (map col_name (table_columns (descriptor_table ?t)))"
    by (simp add: TableMetadata_of_def)
  have h4: "99 \<notin> col_id ` set (table_columns (descriptor_table ?t))"
    by (simp add: TableMetadata_of_def)
  have h5: "''depth'' \<notin> col_name ` set (table_columns (descriptor_table ?t))"
    by (simp add: TableMetadata_of_def)
  have a: "TableMetadata_column_id ?t (col_name ?c1) = Inr (col_id ?c1)"
    using T h2 by blast
  have b: "TableMetadata_column_type ?t (col_id ?c1) = Inr (col_type ?c1)"
    using T h1 by blast
  have b': "TableMetadata_column_name ?t (col_id ?c1) = Inr (col_name ?c1)"
    using T h3 by blast
  have c: "TableMetadata_column_name ?t 99 = Inl LogFatal"
    using T h4 by blast
  have d: "TableMetadata_column_id ?t ''depth'' = Inl LogFatal"
    using T h5 by blast
  show ?thesis using a b c d by simp
qed

text \<open>
  The claim as stated, for every column of every list, fails when two columns share an
  id: the list below contains \<open>{0, "frame", VIDEO}\<close>, and \<^verbatim>\<open>column_name(0)\<close> and
  \<^verbatim>\<open>column_type(0)\<close> answer from the earlier column \<open>{0, "index", INT}\<close>.
\<close>

theorem column_lookup_counterexample:
  "\<lparr>col_id = 0, col_name = ''frame'', col_type = ColumnType_VIDEO\<rparr>
     \<in> set (table_columns (descriptor_table (TableMetadata_of
         \<lparr>table_id = 0, table_name = ''t'', num_rows = 0, rows_per_item = 1,
          table_columns = [\<lparr>col_id = 0, col_name = ''index'', col_type = ColumnType_INT\<rparr>,
                           \<lparr>col_id = 0, col_name = ''frame'', col_type = ColumnType_VIDEO\<rparr>]\<rparr>))) \<and>
   TableMetadata_column_name (TableMetadata_of
         \<lparr>table_id = 0, table_name = ''t'', num_rows = 0, rows_per_item = 1,
          table_columns = [\<lparr>col_id = 0, col_name = ''index'', col_type = ColumnType_INT\<rparr>,
                           \<lparr>col_id = 0, col_name = ''frame'', col_type = ColumnType_VIDEO\<rparr>]\<rparr>) 0
     = Inr ''index'' \<and>
   TableMetadata_column_type (TableMetadata_of
         \<lparr>table_id = 0, table_name = ''t'', num_rows = 0, rows_per_item = 1,
          table_columns = [\<lparr>col_id = 0, col_name = ''index'', col_type = ColumnType_INT\<rparr>,
                           \<lparr>col_id = 0, col_name = ''frame'', col_type = ColumnType_VIDEO\<rparr>]\<rparr>) 0
     = Inr ColumnType_INT"
  by (simp add: TableMetadata_of_def TableMetadata_column_name_def TableMetadata_column_type_def)

section \<open>Jobs\<close>

lemma push_table_ids_map: "push_table_ids ts ids = ids @ map output_table_id ts"
  by (induction ts arbitrary: ids) simp_all

text \<open>
  C6 (amended). \<^verbatim>\<open>table_ids()\<close> of a \<^verbatim>\<open>JobMetadata\<close> constructed from a descriptor is the
  list of the tasks' output table ids, one entry per task in task order. It contains
  every output table id of the tasks, and it is free of duplicates exactly when no two
  tasks have the same output table.
\<close>

theorem table_ids_per_task:
  "table_ids (JobMetadata_of job) = map output_table_id (tasks job) \<and>
   set (table_ids (JobMetadata_of job)) = output_table_id ` set (tasks job) \<and>
   distinct (table_ids (JobMetadata_of job)) = distinct (map output_table_id (tasks job))"
  by (simp add: table_ids_def JobMetadata_of_def push_table_ids_map)

text \<open>Two tasks, for the tables 5 and 6.\<close>

theorem table_ids_per_task_witness:
  "table_ids (JobMetadata_of
     \<lparr>job_id = 0, job_name = ''j'', io_item_size = 1, work_item_size = 1, num_nodes = 1,
      job_columns = [],
      tasks = [\<lparr>output_table_id = 5, samples = [\<lparr>rows = replicate 100 0\<rparr>]\<rparr>,
               \<lparr>output_table_id = 6, samples = [\<lparr>rows = replicate 100 0\<rparr>]\<rparr>]\<rparr>) = [5, 6]"
  using table_ids_per_task[of "\<lparr>job_id = 0, job_name = ''j'', io_item_size = 1,
      work_item_size = 1, num_nodes = 1, job_columns = [],
      tasks = [\<lparr>output_table_id = 5, samples = [\<lparr>rows = replicate 100 0\<rparr>]\<rparr>,
               \<lparr>output_table_id = 6, samples = [\<lparr>rows = replicate 100 0\<rparr>]\<rparr>]\<rparr>"]
  by simp

text \<open>
  The claim as stated, that the list has no duplicates even when several tasks have the
  same output table, fails for two tasks that both write table 5.
\<close>

theorem table_ids_counterexample:
  "table_ids (JobMetadata_of
     \<lparr>job_id = 0, job_name = ''j'', io_item_size = 1, work_item_size = 1, num_nodes = 1,
      job_columns = [],
      tasks = [\<lparr>output_table_id = 5, samples = [\<lparr>rows = [0]\<rparr>]\<rparr>,
               \<lparr>output_table_id = 5, samples = [\<lparr>rows = [1]\<rparr>]\<rparr>]\<rparr>) = [5, 5] \<and>
   \<not> distinct (table_ids (JobMetadata_of
     \<lparr>job_id = 0, job_name = ''j'', io_item_size = 1, work_item_size = 1, num_nodes = 1,
      job_columns = [],
      tasks = [\<lparr>output_table_id = 5, samples = [\<lparr>rows = [0]\<rparr>]\<rparr>,
               \<lparr>output_table_id = 5, samples = [\<lparr>rows = [1]\<rparr>]\<rparr>]\<rparr>))"
  by (simp add: table_ids_def JobMetadata_of_def)

text \<open>
  C3. The claim is that two successive calls of \<^verbatim>\<open>rows_in_table(t)\<close> return the same
  value. On a job whose two tasks have first samples of one row and of two rows, the
  first call for table 5 misses the cache, runs the loop over both tasks and returns the
  last task's count, 2, while the cache keeps what the first iteration inserted, 1
  (\<^verbatim>\<open>insert\<close> leaves an existing entry alone); the second call returns the cached 1.
\<close>

theorem rows_in_table_two_answers:
  "fst (rows_in_table (JobMetadata_of
     \<lparr>job_id = 0, job_name = ''j'', io_item_size = 1, work_item_size = 1, num_nodes = 1,
      job_columns = [],
      tasks = [\<lparr>output_table_id = 5, samples = [\<lparr>rows = [0]\<rparr>]\<rparr>,
               \<lparr>output_table_id = 6, samples = [\<lparr>rows = [0, 1]\<rparr>]\<rparr>]\<rparr>) 5) = Inr 2 \<and>
   rows_in_table_job (snd (rows_in_table (JobMetadata_of
     \<lparr>job_id = 0, job_name = ''j'', io_item_size = 1, work_item_size = 1, num_nodes = 1,
      job_columns = [],
      tasks = [\<lparr>output_table_id = 5, samples = [\<lparr>rows = [0]\<rparr>]\<rparr>,
               \<lparr>output_table_id = 6, samples = [\<lparr>rows = [0, 1]\<rparr>]\<rparr>]\<rparr>) 5)) = [(5, 1)] \<and>
   fst (rows_in_table (snd (rows_in_table (JobMetadata_of
     \<lparr>job_id = 0, job_name = ''j'', io_item_size = 1, work_item_size = 1, num_nodes = 1,
      job_columns = [],
      tasks = [\<lparr>output_table_id = 5, samples = [\<lparr>rows = [0]\<rparr>]\<rparr>,
               \<lparr>output_table_id = 6, samples = [\<lparr>rows = [0, 1]\<rparr>]\<rparr>]\<rparr>) 5)) 5) = Inr 1"
  by (simp add: rows_in_table_def JobMetadata_of_def Let_def)

text \<open>
  C10. The claim is that \<^verbatim>\<open>JobMetadata::column_id(n)\<close> returns the id stored under \<open>n\<close>
  in the index built at construction. For the columns \<open>{0, "index"}\<close> and
  \<open>{1, "frame"}\<close> the index does hold 1 under \<open>"frame"\<close>, and the function finds it, but
  it has no \<^verbatim>\<open>return\<close> statement: no value is returned.
\<close>

theorem job_column_id_returns_nothing:
  "map_find ''frame'' (column_ids_job (JobMetadata_of
     \<lparr>job_id = 0, job_name = ''j'', io_item_size = 1, work_item_size = 1, num_nodes = 1,
      job_columns = [\<lparr>col_id = 0, col_name = ''index'', col_type = ColumnType_INT\<rparr>,
                     \<lparr>col_id = 1, col_name = ''frame'', col_type = ColumnType_VIDEO\<rparr>],
      tasks = []\<rparr>)) = Some 1 \<and>
   JobMetadata_column_id (JobMetadata_of
     \<lparr>job_id = 0, job_name = ''j'', io_item_size = 1, work_item_size = 1, num_nodes = 1,
      job_columns = [\<lparr>col_id = 0, col_name = ''index'', col_type = ColumnType_INT\<rparr>,
                     \<lparr>col_id = 1, col_name = ''frame'', col_type = ColumnType_VIDEO\<rparr>],
      tasks = []\<rparr>) ''frame'' = Inl NoReturnValue"
  by (simp add: JobMetadata_column_id_def JobMetadata_of_def less_char_def)

section \<open>Item descriptors\<close>

text \<open>
  C4 (amended). Constructing a \<^verbatim>\<open>VideoMetadata\<close> from a descriptor always succeeds and
  checks nothing: for every descriptor, \<^verbatim>\<open>keyframe_positions()\<close> and
  \<^verbatim>\<open>keyframe_byte_offsets()\<close> return the descriptor's two sequences as they are, of equal
  length or not. In particular a payload with equal lengths loads.
\<close>

theorem video_metadata_unchecked:
  "VideoMetadata_keyframe_positions (VideoMetadata_of d) = keyframe_positions d \<and>
   VideoMetadata_keyframe_byte_offsets (VideoMetadata_of d) = keyframe_byte_offsets d"
  by (simp add: VideoMetadata_keyframe_positions_def VideoMetadata_keyframe_byte_offsets_def
      VideoMetadata_of_def)

text \<open>Three keyframes with three byte offsets.\<close>

theorem video_metadata_unchecked_witness:
  "VideoMetadata_keyframe_positions (VideoMetadata_of
     \<lparr>video_table_id = 0, video_column_id = 1, video_item_id = 0, frames = 90, width = 640,
      height = 480, keyframe_positions = [0, 30, 60],
      keyframe_byte_offsets = [0, 15000, 31000]\<rparr>) = [0, 30, 60] \<and>
   VideoMetadata_keyframe_byte_offsets (VideoMetadata_of
     \<lparr>video_table_id = 0, video_column_id = 1, video_item_id = 0, frames = 90, width = 640,
      height = 480, keyframe_positions = [0, 30, 60],
      keyframe_byte_offsets = [0, 15000, 31000]\<rparr>) = [0, 15000, 31000]"
  using video_metadata_unchecked[of "\<lparr>video_table_id = 0, video_column_id = 1,
      video_item_id = 0, frames = 90, width = 640, height = 480,
      keyframe_positions = [0, 30, 60], keyframe_byte_offsets = [0, 15000, 31000]\<rparr>"]
  by simp

text \<open>
  The claim as stated, that a payload with sequences of unequal length is rejected, fails:
  from three keyframe positions and two byte offsets a \<^verbatim>\<open>VideoMetadata\<close> is constructed,
  and its accessors return sequences of lengths 3 and 2.
\<close>

theorem video_metadata_counterexample:
  "length (VideoMetadata_keyframe_positions (VideoMetadata_of
     \<lparr>video_table_id = 0, video_column_id = 1, video_item_id = 0, frames = 90, width = 640,
      height = 480, keyframe_positions = [0, 30, 60],
      keyframe_byte_offsets = [0, 15000]\<rparr>)) = 3 \<and>
   length (VideoMetadata_keyframe_byte_offsets (VideoMetadata_of
     \<lparr>video_table_id = 0, video_column_id = 1, video_item_id = 0, frames = 90, width = 640,
      height = 480, keyframe_positions = [0, 30, 60],
      keyframe_byte_offsets = [0, 15000]\<rparr>)) = 2"
  by (simp add: VideoMetadata_keyframe_positions_def VideoMetadata_keyframe_byte_offsets_def
      VideoMetadata_of_def)

section \<open>The publish sequence\<close>

lemma wrap32_succ_neq: "wrap32 (x + 1) \<noteq> x"
proof
  assume a: "wrap32 (x + 1) = x"
  have "int32 (wrap32 (x + 1))" by (simp add: wrap32_def int32_def)
  then have "int32 x" using a by simp
  then have r: "- 2147483648 \<le> x" "x < 2147483648" by (simp_all add: int32_def)
  show False
  proof (cases "x = 2147483647")
    case True
    then show False using a by (simp add: wrap32_def)
  next
    case False
    then have "int32 (x + 1)" using r by (simp add: int32_def)
    then have "wrap32 (x + 1) = x + 1" by (rule wrap32_id)
    then show False using a by simp
  qed
qed

lemma map_find_map_assign:
  "map_find k' (map_assign k v es) = (if k' = k then Some v else map_find k' es)"
  by (induction es) auto

text \<open>
  C2. For every backend, catalog and table, \<^verbatim>\<open>write_new_table\<close> allocates the id with
  \<^verbatim>\<open>add_table\<close> under the table's name (the id is the catalog's counter before the
  call), stamps the table's descriptor with it, and then requests exactly these writes,
  in this order: first the stamped table descriptor at the table's path and, only if
  that write succeeded, the catalog descriptor (which already lists the new id) at the
  catalog's path. The call succeeds exactly when both writes do.
\<close>

theorem write_new_table_order:
  "(let name = table_name (descriptor_table t);
        new_id = fst (add_table name meta);
        meta1 = snd (add_table name meta);
        desc1 = (descriptor_table t)\<lparr>table_id := new_id\<rparr>;
        table_write = (table_descriptor_path new_id, TablePayload desc1);
        catalog_write = (database_metadata_path,
                         DatabasePayload (fst (DatabaseMetadata_get_descriptor meta1)));
        table_ok = accepts storage (fst table_write) (snd table_write);
        catalog_ok = accepts storage (fst catalog_write) (snd catalog_write)
    in case write_new_table storage meta t of (res, storage', meta', t') \<Rightarrow>
         new_id = next_table_id_db meta \<and>
         descriptor_table t' = desc1 \<and>
         map_find new_id (tables (fst (DatabaseMetadata_get_descriptor meta1))) = Some name \<and>
         requests storage' = requests storage @
           (if table_ok
            then [(fst table_write, snd table_write, Ok),
                  (fst catalog_write, snd catalog_write, if catalog_ok then Ok else Failed)]
            else [(fst table_write, snd table_write, Failed)]) \<and>
         (res = Inr ()) = (table_ok \<and> catalog_ok))"
  by (simp add: write_new_table_def write_table_metadata_def write_database_metadata_def
      backend_write_def add_table_def DatabaseMetadata_get_descriptor_def Let_def
      table_descriptor_path_def database_metadata_path_def map_find_map_assign
      split: prod.splits)

text \<open>A backend that completes every write, a fresh catalog and a table named \<open>videos\<close>.\<close>

theorem write_new_table_order_witness:
  "write_new_table
     \<lparr>accepts = (\<lambda>p x. True), requests = []\<rparr>
     DatabaseMetadata_new
     (TableMetadata_of \<lparr>table_id = 0, table_name = ''videos'', num_rows = 0, rows_per_item = 1,
        table_columns = []\<rparr>) =
     (Inr (),
      \<lparr>accepts = (\<lambda>p x. True),
       requests =
         [(TablePath 0,
           TablePayload \<lparr>table_id = 0, table_name = ''videos'', num_rows = 0,
             rows_per_item = 1, table_columns = []\<rparr>, Ok),
          (DatabasePath,
           DatabasePayload \<lparr>next_table_id = 1, next_job_id = 0, tables = [(0, ''videos'')],
             jobs = []\<rparr>, Ok)]\<rparr>,
      \<lparr>descriptor_db = \<lparr>next_table_id = 1, next_job_id = 0, tables = [(0, ''videos'')],
             jobs = []\<rparr>,
       next_table_id_db = 1, next_job_id_db = 0, table_names_db = [(0, ''videos'')],
       job_names_db = []\<rparr>,
      TableMetadata_of \<lparr>table_id = 0, table_name = ''videos'', num_rows = 0, rows_per_item = 1,
        table_columns = []\<rparr>)"
  using write_new_table_order[of "TableMetadata_of \<lparr>table_id = 0, table_name = ''videos'',
        num_rows = 0, rows_per_item = 1, table_columns = []\<rparr>" DatabaseMetadata_new
        "\<lparr>accepts = (\<lambda>p x. True), requests = []\<rparr>"]
  by (simp add: write_new_table_def write_table_metadata_def write_database_metadata_def
      backend_write_def add_table_def DatabaseMetadata_get_descriptor_def Let_def
      table_descriptor_path_def database_metadata_path_def DatabaseMetadata_new_def
      TableMetadata_of_def empty_DatabaseDescriptor_def wrap32_def)

lemma later_table_ids_differ:
  assumes "0 \<le> c" and "next_table_id_db m = c + 1"
    and "run_ops ops m = Inr (rs, m2)"
    and "c + 1 + int (num_add_table ops) < 2147483648"
  shows "c \<notin> set (issued_table_ids rs)"
proof -
  have "issued_table_ids rs = map (\<lambda>k. next_table_id_db m + int k) [0..<num_add_table ops]"
    using run_ops_table_ids[OF assms(3)] assms(1,2,4) by simp
  then show ?thesis using assms(2) by auto
qed

lemma write_new_table_effect:
  "(let name = table_name (descriptor_table t);
        new_id = next_table_id_db meta
    in case write_new_table storage meta t of (res, storage', meta', t') \<Rightarrow>
         next_table_id_db meta' = wrap32 (new_id + 1) \<and>
         table_names_db meta' = map_assign new_id name (table_names_db meta) \<and>
         has_table meta' new_id \<and>
         get_table_name meta' new_id = Inr name \<and>
         table_id (descriptor_table t') = new_id \<and>
         table_name (descriptor_table t') = name \<and>
         (res = Inl IOError) =
           (\<not> (accepts storage (table_descriptor_path new_id)
                  (TablePayload ((descriptor_table t)\<lparr>table_id := new_id\<rparr>)) \<and>
               accepts storage database_metadata_path
                  (DatabasePayload (fst (DatabaseMetadata_get_descriptor (snd (add_table name meta))))))))"
  by (simp add: write_new_table_def write_table_metadata_def write_database_metadata_def
      backend_write_def add_table_def DatabaseMetadata_get_descriptor_def Let_def
      table_descriptor_path_def database_metadata_path_def map_find_map_assign
      has_table_def get_table_name_def map_count_def
      split: prod.splits)

text \<open>
  C9. Whatever the backend answers to the two writes, also when one of them fails, the
  catalog that \<^verbatim>\<open>write_new_table\<close> leaves behind has the counter advanced past the
  allocated id and holds the id with the table's name: the allocation happened before the
  writes and is not rolled back. The call reports a failed write exactly when the backend
  refuses one of the two writes. The next \<^verbatim>\<open>add_table\<close> on that catalog, and a retry of
  \<^verbatim>\<open>write_new_table\<close> on it, get a different id, and the first id stays in the catalog;
  nor is the id issued by any later run of catalog calls that stays within the range of
  the 32-bit counter.
\<close>

theorem write_new_table_consumes_id:
  assumes w: "write_new_table storage meta t = (res, storage', meta', t')"
  shows "next_table_id_db meta' = wrap32 (next_table_id_db meta + 1) \<and>
         table_names_db meta' =
           map_assign (next_table_id_db meta) (table_name (descriptor_table t)) (table_names_db meta) \<and>
         has_table meta' (next_table_id_db meta) \<and>
         get_table_name meta' (next_table_id_db meta) = Inr (table_name (descriptor_table t)) \<and>
         table_id (descriptor_table t') = next_table_id_db meta \<and>
         (res = Inl IOError) =
           (\<not> (accepts storage (table_descriptor_path (next_table_id_db meta))
                  (TablePayload ((descriptor_table t)\<lparr>table_id := next_table_id_db meta\<rparr>)) \<and>
               accepts storage database_metadata_path
                  (DatabasePayload (fst (DatabaseMetadata_get_descriptor
                     (snd (add_table (table_name (descriptor_table t)) meta))))))) \<and>
         fst (add_table name' meta') \<noteq> next_table_id_db meta \<and>
         table_id (descriptor_table (snd (snd (snd (write_new_table storage' meta' t')))))
           \<noteq> next_table_id_db meta \<and>
         has_table (fst (snd (snd (write_new_table storage' meta' t')))) (next_table_id_db meta) \<and>
         (0 \<le> next_table_id_db meta \<and> run_ops ops meta' = Inr (rs, m2) \<and>
          next_table_id_db meta + 1 + int (num_add_table ops) < 2147483648 \<longrightarrow>
            next_table_id_db meta \<notin> set (issued_table_ids rs))"
proof -
  let ?c = "next_table_id_db meta"
  have e: "next_table_id_db meta' = wrap32 (?c + 1) \<and>
         table_names_db meta' =
           map_assign ?c (table_name (descriptor_table t)) (table_names_db meta) \<and>
         has_table meta' ?c \<and>
         get_table_name meta' ?c = Inr (table_name (descriptor_table t)) \<and>
         table_id (descriptor_table t') = ?c \<and>
         table_name (descriptor_table t') = table_name (descriptor_table t) \<and>
         (res = Inl IOError) =
           (\<not> (accepts storage (table_descriptor_path ?c)
                  (TablePayload ((descriptor_table t)\<lparr>table_id := ?c\<rparr>)) \<and>
               accepts storage database_metadata_path
                  (DatabasePayload (fst (DatabaseMetadata_get_descriptor
                     (snd (add_table (table_name (descriptor_table t)) meta)))))))"
    using write_new_table_effect[of t meta storage] w by (simp add: Let_def)
  obtain res2 s2 meta2 t2 where w2: "write_new_table storage' meta' t' = (res2, s2, meta2, t2)"
    by (cases "write_new_table storage' meta' t'") auto
  have e2: "table_id (descriptor_table t2) = next_table_id_db meta' \<and>
            table_names_db meta2 =
              map_assign (next_table_id_db meta') (table_name (descriptor_table t'))
                (table_names_db meta')"
    using write_new_table_effect[of t' meta' storage'] w2 by (simp add: Let_def)
  have ne: "next_table_id_db meta' \<noteq> ?c"
    using e wrap32_succ_neq[of ?c] by simp
  have r1: "fst (add_table name' meta') \<noteq> ?c"
    using ne by (simp add: add_table_fst)
  have r2: "table_id (descriptor_table t2) \<noteq> ?c"
    using e2 ne by simp
  have "map_find ?c (table_names_db meta') = Some (table_name (descriptor_table t))"
    using e by (simp add: map_find_map_assign)
  then have "map_find ?c (table_names_db meta2) = Some (table_name (descriptor_table t))"
    using e2 ne by (simp add: map_find_map_assign)
  then have r3: "has_table meta2 ?c"
    by (simp add: has_table_def map_count_def)
  have r4: "?c \<notin> set (issued_table_ids rs)"
    if h: "0 \<le> ?c \<and> run_ops ops meta' = Inr (rs, m2) \<and>
           ?c + 1 + int (num_add_table ops) < 2147483648"
  proof -
    have "wrap32 (?c + 1) = ?c + 1" using h by (simp add: wrap32_id int32_def)
    then have n: "next_table_id_db meta' = ?c + 1" using e by simp
    show ?thesis using later_table_ids_differ[OF _ n, of ops rs m2] h by blast
  qed
  show ?thesis using e r1 r2 r3 r4 w2 by simp
qed

text \<open>
  A backend that refuses every write: the publish of \<open>videos\<close> on a fresh catalog fails
  at the table write, id 0 stays allocated, and later calls get the ids 1 and 2.
\<close>

theorem write_new_table_consumes_id_witness:
  "write_new_table
     \<lparr>accepts = (\<lambda>p x. False), requests = []\<rparr>
     DatabaseMetadata_new
     (TableMetadata_of \<lparr>table_id = 0, table_name = ''videos'', num_rows = 0, rows_per_item = 1,
        table_columns = []\<rparr>) =
     (Inl IOError,
      \<lparr>accepts = (\<lambda>p x. False),
       requests =
         [(TablePath 0,
           TablePayload \<lparr>table_id = 0, table_name = ''videos'', num_rows = 0,
             rows_per_item = 1, table_columns = []\<rparr>, Failed)]\<rparr>,
      \<lparr>descriptor_db = empty_DatabaseDescriptor,
       next_table_id_db = 1, next_job_id_db = 0, table_names_db = [(0, ''videos'')],
       job_names_db = []\<rparr>,
      TableMetadata_of \<lparr>table_id = 0, table_name = ''videos'', num_rows = 0, rows_per_item = 1,
        table_columns = []\<rparr>) \<and>
   has_table \<lparr>descriptor_db = empty_DatabaseDescriptor,
       next_table_id_db = 1, next_job_id_db = 0, table_names_db = [(0, ''videos'')],
       job_names_db = []\<rparr> 0 \<and>
   fst (add_table ''videos'' \<lparr>descriptor_db = empty_DatabaseDescriptor,
       next_table_id_db = 1, next_job_id_db = 0, table_names_db = [(0, ''videos'')],
       job_names_db = []\<rparr>) \<noteq> 0 \<and>
   run_ops [AddTable ''videos'', AddTable ''frames'']
     \<lparr>descriptor_db = empty_DatabaseDescriptor,
       next_table_id_db = 1, next_job_id_db = 0, table_names_db = [(0, ''videos'')],
       job_names_db = []\<rparr> =
     Inr ([TableId 1, TableId 2],
       \<lparr>descriptor_db = empty_DatabaseDescriptor,
        next_table_id_db = 3, next_job_id_db = 0,
        table_names_db = [(0, ''videos''), (1, ''videos''), (2, ''frames'')],
        job_names_db = []\<rparr>) \<and>
   (0::int) \<notin> set (issued_table_ids [TableId 1, TableId 2])"
proof -
  let ?s = "\<lparr>accepts = (\<lambda>p x. False), requests = []\<rparr>"
  let ?d = "\<lparr>table_id = 0, table_name = ''videos'', num_rows = 0, rows_per_item = 1,
        table_columns = []\<rparr>"
  let ?s1 = "\<lparr>accepts = (\<lambda>p x. False),
       requests = [(TablePath 0, TablePayload ?d, Failed)]\<rparr>"
  let ?m1 = "\<lparr>descriptor_db = empty_DatabaseDescriptor,
       next_table_id_db = 1, next_job_id_db = 0, table_names_db = [(0::int, ''videos'')],
       job_names_db = []\<rparr>"
  let ?m2 = "\<lparr>descriptor_db = empty_DatabaseDescriptor,
        next_table_id_db = 3, next_job_id_db = 0,
        table_names_db = [(0::int, ''videos''), (1, ''videos''), (2, ''frames'')],
        job_names_db = []\<rparr>"
  have w: "write_new_table ?s DatabaseMetadata_new (TableMetadata_of ?d) =
             (Inl IOError, ?s1, ?m1, TableMetadata_of ?d)"
    by (simp add: write_new_table_def write_table_metadata_def backend_write_def add_table_def
        Let_def table_descriptor_path_def DatabaseMetadata_new_def TableMetadata_of_def
        wrap32_def)
  have run: "run_ops [AddTable ''videos'', AddTable ''frames''] ?m1 =
               Inr ([TableId 1, TableId 2], ?m2)"
    by (simp add: add_table_def wrap32_def Let_def)
  have c0: "next_table_id_db DatabaseMetadata_new = 0"
    by (simp add: DatabaseMetadata_new_def)
  note T = write_new_table_consumes_id[OF w,
      of "''videos''" "[AddTable ''videos'', AddTable ''frames'']" "[TableId 1, TableId 2]" ?m2]
  have h: "0 \<le> next_table_id_db DatabaseMetadata_new \<and>
           run_ops [AddTable ''videos'', AddTable ''frames''] ?m1 =
             Inr ([TableId 1, TableId 2], ?m2) \<and>
           next_table_id_db DatabaseMetadata_new + 1 +
             int (num_add_table [AddTable ''videos'', AddTable ''frames'']) < 2147483648"
    using run c0 by simp
  have a: "has_table ?m1 (next_table_id_db DatabaseMetadata_new)"
    and b: "fst (add_table ''videos'' ?m1) \<noteq> next_table_id_db DatabaseMetadata_new"
    using T by blast+
  have c: "next_table_id_db DatabaseMetadata_new \<notin> set (issued_table_ids [TableId 1, TableId 2])"
    using T h by blast
  show ?thesis using w run a b c c0 by simp
qed

end
